theory Spec2Isabelle
  imports Main "HOL-Library.AList" "HOL-Library.Product_Lexorder" "HOL-Library.List_Lexorder"
    "HOL-Library.Char_ord" "HOL-Library.Log_Nat"
begin

section \<open>Data model (app/core/models.py)\<close>

datatype day = Mon | Tue | Wed | Thu | Fri | Sat | Sun

record time_slot =
  ts_id :: string
  ts_day :: day
  ts_start :: string
  ts_end :: string
  ts_order :: int

record room =
  r_id :: string
  r_name :: string
  r_capacity :: int
  r_features :: "string list"

record instructor =
  i_id :: string
  i_name :: string
  i_available_time_slots :: "string list"
  i_preferred_time_slots :: "string list"
  i_max_sessions_per_day :: "int option"

record course =
  c_id :: string
  c_name :: string
  c_instructor_id :: string
  c_enrollment :: int
  c_sessions_per_week :: nat
  c_required_features :: "string list"
  c_preferred_time_slots :: "string list"
  c_allowed_time_slots :: "string list"
  c_cluster_tag :: "string option"
  c_priority :: int
  c_avoid_same_day_sessions :: bool

record objective_weights =
  w_instructor_preference :: int
  w_room_efficiency :: int
  w_cluster_compactness :: int
  w_course_priority :: int

record solver_options =
  time_limit_seconds :: int
  num_workers :: int
  enable_fallback :: bool
  objective_weights :: objective_weights

record scheduling_input =
  courses :: "course list"
  instructors :: "instructor list"
  rooms :: "room list"
  time_slots :: "time_slot list"
  options :: solver_options

record schedule_assignment =
  a_session_id :: string
  a_course_id :: string
  a_instructor_id :: string
  a_room_id :: string
  a_time_slot_id :: string

section \<open>Session expansion (app/core/session_utils.py)\<close>

record course_session =
  session_id :: string
  s_course_id :: string
  s_instructor_id :: string
  enrollment :: int
  priority :: int
  cluster_tag :: "string option"
  required_features :: "string list"
  preferred_time_slots :: "string list"
  allowed_time_slots :: "string list"
  avoid_same_day_sessions :: bool

text \<open>Python's \<^verbatim>\<open>str(index)\<close> for a non-negative integer: its decimal digits.\<close>

definition digit_char :: "nat \<Rightarrow> char" where
  "digit_char d = ''0123456789'' ! d"

fun str_nat :: "nat \<Rightarrow> string" where
  "str_nat n = (if n < 10 then [digit_char n] else str_nat (n div 10) @ [digit_char (n mod 10)])"

declare str_nat.simps [simp del]

text \<open>The body of the inner loop: the session of \<open>course\<close> with occurrence \<open>index\<close>.\<close>

definition make_session :: "course \<Rightarrow> nat \<Rightarrow> course_session" where
  "make_session course index =
     \<lparr> session_id = c_id course @ ''::S'' @ str_nat index,
       s_course_id = c_id course,
       s_instructor_id = c_instructor_id course,
       enrollment = c_enrollment course,
       priority = c_priority course,
       cluster_tag = c_cluster_tag course,
       required_features = c_required_features course,
       preferred_time_slots = c_preferred_time_slots course,
       allowed_time_slots = c_allowed_time_slots course,
       avoid_same_day_sessions = c_avoid_same_day_sessions course \<rparr>"

text \<open>\<^verbatim>\<open>for index in range(1, course.sessions_per_week + 1): sessions.append(...)\<close>\<close>

fun expand_indices :: "course \<Rightarrow> nat list \<Rightarrow> course_session list \<Rightarrow> course_session list" where
  "expand_indices course [] sessions = sessions"
| "expand_indices course (index # rest) sessions =
     expand_indices course rest (sessions @ [make_session course index])"

text \<open>\<^verbatim>\<open>for course in courses: ...\<close>, threading the list \<open>sessions\<close>.\<close>

fun expand_loop :: "course list \<Rightarrow> course_session list \<Rightarrow> course_session list" where
  "expand_loop [] sessions = sessions"
| "expand_loop (course # rest) sessions =
     expand_loop rest (expand_indices course [1 ..< c_sessions_per_week course + 1] sessions)"

definition expand_course_sessions :: "course list \<Rightarrow> course_session list" where
  "expand_course_sessions cs = expand_loop cs []"

section \<open>Python dictionaries\<close>

text \<open>
  A \<^verbatim>\<open>dict\<close> keeps its keys in insertion order; storing under a key that is already
  present replaces the value and keeps the key's position (\<open>AList.update\<close>).  The
  comprehension \<^verbatim>\<open>{x.id: x for x in xs}\<close> stores the elements from left to right, so the
  last element with a given id wins.
\<close>

definition dict_by :: "('a \<Rightarrow> 'k) \<Rightarrow> 'a list \<Rightarrow> ('k \<times> 'a) list" where
  "dict_by key xs = foldl (\<lambda>d x. AList.update (key x) x d) [] xs"

text \<open>\<^verbatim>\<open>usage[key].append(v)\<close> on a \<^verbatim>\<open>defaultdict(list)\<close>.\<close>

definition usage_append :: "('k \<times> 'v list) list \<Rightarrow> 'k \<Rightarrow> 'v \<Rightarrow> ('k \<times> 'v list) list" where
  "usage_append u k v =
     (case map_of u k of
        None \<Rightarrow> u @ [(k, [v])]
      | Some l \<Rightarrow> AList.update k (l @ [v]) u)"

text \<open>\<^verbatim>\<open>str(n)\<close> for a Python integer.\<close>

definition str_int :: "int \<Rightarrow> string" where
  "str_int i = (if i < 0 then ''-'' @ str_nat (nat (- i)) else str_nat (nat i))"

section \<open>Validation engine (app/core/validation.py)\<close>

datatype issue_code =
    UNKNOWN_SESSION | DUPLICATE_SESSION_ASSIGNMENT | COURSE_MISMATCH | INSTRUCTOR_MISMATCH
  | UNKNOWN_ROOM | ROOM_CAPACITY_VIOLATION | ROOM_FEATURE_VIOLATION | UNKNOWN_TIME_SLOT
  | UNKNOWN_INSTRUCTOR | INSTRUCTOR_AVAILABILITY_VIOLATION | COURSE_TIME_WINDOW_VIOLATION
  | ROOM_TIME_CONFLICT | INSTRUCTOR_TIME_CONFLICT | MISSING_SESSION_ASSIGNMENT

datatype issue_level = Error | Warning

datatype detail = DStr string | DInt int | DList "string list"

record validation_issue =
  code :: issue_code
  level :: issue_level
  message :: string
  details :: "(string \<times> detail) list"

record validation_report =
  valid :: bool
  issues :: "validation_issue list"

text \<open>\<^verbatim>\<open>ValidationIssue(code=..., message=..., details=...)\<close>: the level defaults to error.\<close>

definition mk_issue :: "issue_code \<Rightarrow> string \<Rightarrow> (string \<times> detail) list \<Rightarrow> validation_issue" where
  "mk_issue c m d = \<lparr> code = c, level = Error, message = m, details = d \<rparr>"

record vstate =
  vs_issues :: "validation_issue list"
  vs_seen_sessions :: "string set"
  vs_room_slot_usage :: "((string \<times> string) \<times> string list) list"
  vs_instructor_slot_usage :: "((string \<times> string) \<times> string list) list"

record vctx =
  session_by_id :: "(string \<times> course_session) list"
  room_by_id :: "(string \<times> room) list"
  instructor_by_id :: "(string \<times> instructor) list"
  slot_by_id :: "(string \<times> time_slot) list"

definition mk_vctx :: "scheduling_input \<Rightarrow> vctx" where
  "mk_vctx data =
     \<lparr> session_by_id = dict_by session_id (expand_course_sessions (courses data)),
       room_by_id = dict_by r_id (rooms data),
       instructor_by_id = dict_by i_id (instructors data),
       slot_by_id = dict_by ts_id (time_slots data) \<rparr>"

text \<open>\<^verbatim>\<open>sorted(set(xs))\<close>\<close>

definition sorted_set :: "string list \<Rightarrow> string list" where
  "sorted_set xs = sort (remdups xs)"

text \<open>The course and instructor comparison of a record against its session.\<close>

definition mismatch_checks :: "course_session \<Rightarrow> schedule_assignment \<Rightarrow> validation_issue list" where
  "mismatch_checks session a =
     (if a_course_id a \<noteq> s_course_id session then
        [mk_issue COURSE_MISMATCH
           (''Session '' @ [CHR 0x27] @ a_session_id a @ [CHR 0x27] @ '' references course ''
              @ [CHR 0x27] @ a_course_id a @ [CHR 0x27] @ '' but expected ''
              @ [CHR 0x27] @ s_course_id session @ [CHR 0x27] @ ''.'')
           [(''session_id'', DStr (a_session_id a)),
            (''expected_course_id'', DStr (s_course_id session)),
            (''provided_course_id'', DStr (a_course_id a))]]
      else []) @
     (if a_instructor_id a \<noteq> s_instructor_id session then
        [mk_issue INSTRUCTOR_MISMATCH
           (''Session '' @ [CHR 0x27] @ a_session_id a @ [CHR 0x27] @ '' references instructor ''
              @ [CHR 0x27] @ a_instructor_id a @ [CHR 0x27] @ '' but expected ''
              @ [CHR 0x27] @ s_instructor_id session @ [CHR 0x27] @ ''.'')
           [(''session_id'', DStr (a_session_id a)),
            (''expected_instructor_id'', DStr (s_instructor_id session)),
            (''provided_instructor_id'', DStr (a_instructor_id a))]]
      else [])"

text \<open>\<^verbatim>\<open>room = room_by_id.get(assignment.room_id)\<close> and the checks that hang on it.\<close>

definition room_checks :: "vctx \<Rightarrow> course_session \<Rightarrow> schedule_assignment \<Rightarrow> validation_issue list" where
  "room_checks ctx session a =
     (case map_of (room_by_id ctx) (a_room_id a) of
        None \<Rightarrow>
          [mk_issue UNKNOWN_ROOM
             (''Room '' @ [CHR 0x27] @ a_room_id a @ [CHR 0x27] @ '' does not exist.'')
             [(''room_id'', DStr (a_room_id a))]]
      | Some room \<Rightarrow>
          (if r_capacity room < enrollment session then
             [mk_issue ROOM_CAPACITY_VIOLATION
                (''Room '' @ [CHR 0x27] @ r_id room @ [CHR 0x27] @ '' capacity ''
                   @ str_int (r_capacity room) @ '' is lower than enrollment ''
                   @ str_int (enrollment session) @ '' for session ''
                   @ [CHR 0x27] @ session_id session @ [CHR 0x27] @ ''.'')
                [(''session_id'', DStr (session_id session)),
                 (''room_id'', DStr (r_id room)),
                 (''room_capacity'', DInt (r_capacity room)),
                 (''enrollment'', DInt (enrollment session))]]
           else []) @
          (if \<not> set (required_features session) \<subseteq> set (r_features room) then
             [mk_issue ROOM_FEATURE_VIOLATION
                (''Room '' @ [CHR 0x27] @ r_id room @ [CHR 0x27]
                   @ '' does not satisfy required features for session ''
                   @ [CHR 0x27] @ session_id session @ [CHR 0x27] @ ''.'')
                [(''session_id'', DStr (session_id session)),
                 (''room_id'', DStr (r_id room)),
                 (''missing_features'',
                    DList (sorted_set (filter (\<lambda>f. f \<notin> set (r_features room))
                                              (required_features session))))]]
           else []))"

text \<open>
  \<^verbatim>\<open>slot = slot_by_id.get(assignment.time_slot_id)\<close>: the instructor and the allowed
  window are looked at in the \<^verbatim>\<open>else\<close> branch only, that is when the slot exists.
\<close>

definition slot_checks :: "vctx \<Rightarrow> course_session \<Rightarrow> schedule_assignment \<Rightarrow> validation_issue list" where
  "slot_checks ctx session a =
     (case map_of (slot_by_id ctx) (a_time_slot_id a) of
        None \<Rightarrow>
          [mk_issue UNKNOWN_TIME_SLOT
             (''Time slot '' @ [CHR 0x27] @ a_time_slot_id a @ [CHR 0x27] @ '' does not exist.'')
             [(''time_slot_id'', DStr (a_time_slot_id a))]]
      | Some slot \<Rightarrow>
          (case map_of (instructor_by_id ctx) (s_instructor_id session) of
             None \<Rightarrow>
               [mk_issue UNKNOWN_INSTRUCTOR
                  (''Instructor '' @ [CHR 0x27] @ s_instructor_id session @ [CHR 0x27]
                     @ '' does not exist.'')
                  [(''instructor_id'', DStr (s_instructor_id session))]]
           | Some instructor \<Rightarrow>
               (if i_available_time_slots instructor \<noteq> []
                   \<and> ts_id slot \<notin> set (i_available_time_slots instructor) then
                  [mk_issue INSTRUCTOR_AVAILABILITY_VIOLATION
                     (''Instructor '' @ [CHR 0x27] @ i_id instructor @ [CHR 0x27]
                        @ '' is not available for slot '' @ [CHR 0x27] @ ts_id slot
                        @ [CHR 0x27] @ ''.'')
                     [(''session_id'', DStr (session_id session)),
                      (''instructor_id'', DStr (i_id instructor)),
                      (''time_slot_id'', DStr (ts_id slot))]]
                else [])) @
          (if allowed_time_slots session \<noteq> []
              \<and> ts_id slot \<notin> set (allowed_time_slots session) then
             [mk_issue COURSE_TIME_WINDOW_VIOLATION
                (''Session '' @ [CHR 0x27] @ session_id session @ [CHR 0x27]
                   @ '' is outside allowed time windows for course ''
                   @ [CHR 0x27] @ s_course_id session @ [CHR 0x27] @ ''.'')
                [(''session_id'', DStr (session_id session)),
                 (''course_id'', DStr (s_course_id session)),
                 (''time_slot_id'', DStr (ts_id slot))]]
           else []))"

text \<open>
  The body of \<^verbatim>\<open>for assignment in assignments\<close>.  The two \<^verbatim>\<open>continue\<close> statements leave
  the seen set and both usage tables untouched.
\<close>

definition validate_record :: "vctx \<Rightarrow> vstate \<Rightarrow> schedule_assignment \<Rightarrow> vstate" where
  "validate_record ctx st a =
     (case map_of (session_by_id ctx) (a_session_id a) of
        None \<Rightarrow>
          st \<lparr> vs_issues := vs_issues st @
                 [mk_issue UNKNOWN_SESSION
                    (''Session '' @ [CHR 0x27] @ a_session_id a @ [CHR 0x27]
                       @ '' does not exist in input.'')
                    [(''session_id'', DStr (a_session_id a))]] \<rparr>
      | Some session \<Rightarrow>
          if a_session_id a \<in> vs_seen_sessions st then
            st \<lparr> vs_issues := vs_issues st @
                   [mk_issue DUPLICATE_SESSION_ASSIGNMENT
                      (''Session '' @ [CHR 0x27] @ a_session_id a @ [CHR 0x27]
                         @ '' is assigned more than once.'')
                      [(''session_id'', DStr (a_session_id a))]] \<rparr>
          else
            \<lparr> vs_issues = vs_issues st @ mismatch_checks session a
                   @ room_checks ctx session a @ slot_checks ctx session a,
              vs_seen_sessions = insert (a_session_id a) (vs_seen_sessions st),
              vs_room_slot_usage =
                usage_append (vs_room_slot_usage st) (a_room_id a, a_time_slot_id a)
                  (a_session_id a),
              vs_instructor_slot_usage =
                usage_append (vs_instructor_slot_usage st)
                  (a_instructor_id a, a_time_slot_id a) (a_session_id a) \<rparr>)"

definition room_conflict_issue :: "(string \<times> string) \<times> string list \<Rightarrow> validation_issue" where
  "room_conflict_issue e =
     (case e of ((room_id, slot_id), session_ids) \<Rightarrow>
        mk_issue ROOM_TIME_CONFLICT
          (''Room '' @ [CHR 0x27] @ room_id @ [CHR 0x27]
             @ '' is assigned to multiple sessions at slot '' @ [CHR 0x27] @ slot_id
             @ [CHR 0x27] @ ''.'')
          [(''room_id'', DStr room_id), (''time_slot_id'', DStr slot_id),
           (''session_ids'', DList session_ids)])"

definition instructor_conflict_issue :: "(string \<times> string) \<times> string list \<Rightarrow> validation_issue" where
  "instructor_conflict_issue e =
     (case e of ((instructor_id, slot_id), session_ids) \<Rightarrow>
        mk_issue INSTRUCTOR_TIME_CONFLICT
          (''Instructor '' @ [CHR 0x27] @ instructor_id @ [CHR 0x27]
             @ '' is assigned to multiple sessions at slot '' @ [CHR 0x27] @ slot_id
             @ [CHR 0x27] @ ''.'')
          [(''instructor_id'', DStr instructor_id), (''time_slot_id'', DStr slot_id),
           (''session_ids'', DList session_ids)])"

text \<open>The two cross-record loops over \<^verbatim>\<open>usage.items()\<close>.\<close>

definition conflict_issues ::
  "((string \<times> string) \<times> string list \<Rightarrow> validation_issue) \<Rightarrow>
   ((string \<times> string) \<times> string list) list \<Rightarrow> validation_issue list" where
  "conflict_issues mk usage = map mk (filter (\<lambda>e. length (snd e) > 1) usage)"

definition missing_issue :: "string \<Rightarrow> validation_issue" where
  "missing_issue sid =
     mk_issue MISSING_SESSION_ASSIGNMENT
       (''Session '' @ [CHR 0x27] @ sid @ [CHR 0x27] @ '' is not assigned.'')
       [(''session_id'', DStr sid)]"

definition vstate_init :: vstate where
  "vstate_init = \<lparr> vs_issues = [], vs_seen_sessions = {}, vs_room_slot_usage = [],
     vs_instructor_slot_usage = [] \<rparr>"

definition validate_schedule :: "scheduling_input \<Rightarrow> schedule_assignment list \<Rightarrow> validation_report" where
  "validate_schedule data assignments =
     (let ctx = mk_vctx data;
          st = foldl (validate_record ctx) vstate_init assignments;
          missing_sessions =
            sort (filter (\<lambda>sid. sid \<notin> vs_seen_sessions st) (map fst (session_by_id ctx)));
          all_issues = vs_issues st
            @ conflict_issues room_conflict_issue (vs_room_slot_usage st)
            @ conflict_issues instructor_conflict_issue (vs_instructor_slot_usage st)
            @ map missing_issue missing_sessions
      in \<lparr> valid = \<not> list_ex (\<lambda>i. level i = Error) all_issues, issues = all_issues \<rparr>)"

section \<open>Auxiliary notions for reasoning about the validation loop\<close>

text \<open>
  The records that are neither unknown nor duplicates, that is the records for which the
  loop body runs to its end; \<open>seen\<close> is the set \<^verbatim>\<open>seen_sessions\<close> on entry.
\<close>

fun kept_records :: "vctx \<Rightarrow> string set \<Rightarrow> schedule_assignment list \<Rightarrow> schedule_assignment list" where
  "kept_records ctx seen [] = []"
| "kept_records ctx seen (a # as) =
     (if map_of (session_by_id ctx) (a_session_id a) = None \<or> a_session_id a \<in> seen
      then kept_records ctx seen as
      else a # kept_records ctx (insert (a_session_id a) seen) as)"

text \<open>The issues appended by one run of the loop body, and by the whole loop.\<close>

definition record_issues :: "vctx \<Rightarrow> string set \<Rightarrow> schedule_assignment \<Rightarrow> validation_issue list" where
  "record_issues ctx seen a =
     vs_issues (validate_record ctx (vstate_init \<lparr> vs_seen_sessions := seen \<rparr>) a)"

text \<open>A usage table filled from a list of records, as the loop does for the kept ones.\<close>

definition usage_of ::
  "(schedule_assignment \<Rightarrow> string \<times> string) \<Rightarrow> ((string \<times> string) \<times> string list) list \<Rightarrow>
   schedule_assignment list \<Rightarrow> ((string \<times> string) \<times> string list) list" where
  "usage_of key u as = foldl (\<lambda>u a. usage_append u (key a) (a_session_id a)) u as"

definition room_key :: "schedule_assignment \<Rightarrow> string \<times> string" where
  "room_key a = (a_room_id a, a_time_slot_id a)"

definition instructor_key :: "schedule_assignment \<Rightarrow> string \<times> string" where
  "instructor_key a = (a_instructor_id a, a_time_slot_id a)"

definition is_conflict :: "validation_issue \<Rightarrow> bool" where
  "is_conflict i = (code i = ROOM_TIME_CONFLICT \<or> code i = INSTRUCTOR_TIME_CONFLICT)"

section \<open>The per-record pass, record by record\<close>

text \<open>The four issues the claims about the per-record pass speak of.\<close>

definition unknown_session_issue :: "schedule_assignment \<Rightarrow> validation_issue" where
  "unknown_session_issue a =
     mk_issue UNKNOWN_SESSION
       (''Session '' @ [CHR 0x27] @ a_session_id a @ [CHR 0x27] @ '' does not exist in input.'')
       [(''session_id'', DStr (a_session_id a))]"

definition duplicate_session_issue :: "schedule_assignment \<Rightarrow> validation_issue" where
  "duplicate_session_issue a =
     mk_issue DUPLICATE_SESSION_ASSIGNMENT
       (''Session '' @ [CHR 0x27] @ a_session_id a @ [CHR 0x27] @ '' is assigned more than once.'')
       [(''session_id'', DStr (a_session_id a))]"

definition unknown_time_slot_issue :: "string \<Rightarrow> validation_issue" where
  "unknown_time_slot_issue tid =
     mk_issue UNKNOWN_TIME_SLOT
       (''Time slot '' @ [CHR 0x27] @ tid @ [CHR 0x27] @ '' does not exist.'')
       [(''time_slot_id'', DStr tid)]"

definition unknown_instructor_issue :: "string \<Rightarrow> validation_issue" where
  "unknown_instructor_issue iid =
     mk_issue UNKNOWN_INSTRUCTOR
       (''Instructor '' @ [CHR 0x27] @ iid @ [CHR 0x27] @ '' does not exist.'')
       [(''instructor_id'', DStr iid)]"

text \<open>
  The two ways record number \<open>k\<close> of an assignment list is flagged: its session id is not
  the id of an expanded session, or it is and an earlier record carries the same id.
\<close>

definition flagged_unknown :: "scheduling_input \<Rightarrow> schedule_assignment list \<Rightarrow> nat \<Rightarrow> bool" where
  "flagged_unknown data as k =
     (map_of (session_by_id (mk_vctx data)) (a_session_id (as ! k)) = None)"

definition flagged_duplicate :: "scheduling_input \<Rightarrow> schedule_assignment list \<Rightarrow> nat \<Rightarrow> bool" where
  "flagged_duplicate data as k =
     (map_of (session_by_id (mk_vctx data)) (a_session_id (as ! k)) \<noteq> None
      \<and> a_session_id (as ! k) \<in> a_session_id ` set (take k as))"

definition unflagged_records :: "scheduling_input \<Rightarrow> schedule_assignment list \<Rightarrow> schedule_assignment list" where
  "unflagged_records data as =
     map (\<lambda>k. as ! k)
       (filter (\<lambda>k. \<not> flagged_unknown data as k \<and> \<not> flagged_duplicate data as k)
          [0 ..< length as])"

text \<open>What the per-record pass reports for record number \<open>k\<close>.\<close>

definition record_report :: "scheduling_input \<Rightarrow> schedule_assignment list \<Rightarrow> nat \<Rightarrow> validation_issue list" where
  "record_report data as k =
     (case map_of (session_by_id (mk_vctx data)) (a_session_id (as ! k)) of
        None \<Rightarrow> [unknown_session_issue (as ! k)]
      | Some session \<Rightarrow>
          if a_session_id (as ! k) \<in> a_session_id ` set (take k as)
          then [duplicate_session_issue (as ! k)]
          else mismatch_checks session (as ! k) @ room_checks (mk_vctx data) session (as ! k)
                 @ slot_checks (mk_vctx data) session (as ! k))"

section \<open>Python numbers\<close>

datatype py_error = KeyError | ZeroDivisionError | OverflowError

text \<open>
  A Python \<^verbatim>\<open>float\<close> is an IEEE 754 binary64 number.  A finite float is represented by
  the rational it denotes; \<open>fl q\<close> is the binary64 number nearest to \<open>q\<close> (ties to the
  even significand, gradual underflow below \<open>2\<^sup>-\<^sup>1\<^sup>0\<^sup>2\<^sup>2\<close>), with the exponent left
  unbounded above: a result of magnitude \<open>2\<^sup>1\<^sup>0\<^sup>2\<^sup>4\<close> or more is an overflow, which the
  operations below turn into the error or the infinity Python produces.
\<close>

definition pow2 :: "int \<Rightarrow> rat" where
  "pow2 k = (if 0 \<le> k then 2 ^ nat k else 1 / 2 ^ nat (- k))"

definition round_half_even :: "rat \<Rightarrow> int" where
  "round_half_even q =
     (let f = \<lfloor>q\<rfloor>; d = q - of_int f
      in if d < 1 / 2 then f else if 1 / 2 < d then f + 1 else if even f then f else f + 1)"

text \<open>\<open>\<lfloor>log\<^sub>2 q\<rfloor>\<close> for a positive rational, from the bit lengths of numerator and denominator.\<close>

definition floor_log2 :: "rat \<Rightarrow> int" where
  "floor_log2 q =
     (case quotient_of q of (n, d) \<Rightarrow>
        let k = bitlen n - bitlen d in if pow2 k \<le> q then k else k - 1)"

definition fl :: "rat \<Rightarrow> rat" where
  "fl q =
     (if q = 0 then 0
      else let a = \<bar>q\<bar>;
               p = max (floor_log2 a - 52) (- 1074);
               m = round_half_even (a / pow2 p)
           in sgn q * of_int m * pow2 p)"

text \<open>The magnitude is \<open>2\<^sup>1\<^sup>0\<^sup>2\<^sup>4\<close> or more: beyond the largest finite binary64 number.\<close>

definition float_overflow :: "rat \<Rightarrow> bool" where
  "float_overflow x = (x \<noteq> 0 \<and> 1024 \<le> floor_log2 \<bar>x\<bar>)"

text \<open>\<^verbatim>\<open>a / b\<close> on two Python integers: the correctly rounded quotient.\<close>

definition py_truediv :: "int \<Rightarrow> int \<Rightarrow> py_error + rat" where
  "py_truediv a b =
     (if b = 0 then Inl ZeroDivisionError
      else let r = fl (of_int a / of_int b)
           in if float_overflow r then Inl OverflowError else Inr r)"

text \<open>\<^verbatim>\<open>float(n)\<close> on a Python integer.\<close>

definition py_float :: "int \<Rightarrow> py_error + rat" where
  "py_float n = (let r = fl (of_int n) in if float_overflow r then Inl OverflowError else Inr r)"

text \<open>\<^verbatim>\<open>int(x)\<close> on a finite float: truncation towards zero.\<close>

definition py_trunc :: "rat \<Rightarrow> int" where
  "py_trunc x = (if 0 \<le> x then \<lfloor>x\<rfloor> else \<lceil>x\<rceil>)"

text \<open>
  \<^verbatim>\<open>int((enrollment / capacity) * 100)\<close>, the expression shared by the local score, the
  objective breakdown and the exact model.  The product of two floats overflows to an
  infinity, which \<^verbatim>\<open>int\<close> refuses with an OverflowError.
\<close>

definition utilization :: "int \<Rightarrow> int \<Rightarrow> py_error + int" where
  "utilization e c =
     (case py_truediv e c of
        Inl e \<Rightarrow> Inl e
      | Inr r \<Rightarrow>
          let p = fl (r * 100)
          in if float_overflow p then Inl OverflowError else Inr (py_trunc p))"

text \<open>
  Float arithmetic does not raise on overflow: it yields an infinity, and infinities can meet
  in a NaN.  A float value is therefore a finite binary64 number, an infinity or NaN.
  The sign of a zero is not represented.
\<close>

datatype pyfloat = Finite rat | PosInf | NegInf | NaN

definition fl_ext :: "rat \<Rightarrow> pyfloat" where
  "fl_ext q =
     (let r = fl q
      in if float_overflow r then (if 0 < q then PosInf else NegInf) else Finite r)"

definition fsgn :: "pyfloat \<Rightarrow> int" where
  "fsgn x = (case x of Finite q \<Rightarrow> (if 0 < q then 1 else if q < 0 then - 1 else 0)
             | PosInf \<Rightarrow> 1 | NegInf \<Rightarrow> - 1 | NaN \<Rightarrow> 0)"

definition inf_of_sign :: "int \<Rightarrow> pyfloat" where
  "inf_of_sign s = (if 0 < s then PosInf else if s < 0 then NegInf else NaN)"

text \<open>\<^verbatim>\<open>x + y\<close> and \<^verbatim>\<open>x * y\<close> on floats.\<close>

definition fadd :: "pyfloat \<Rightarrow> pyfloat \<Rightarrow> pyfloat" where
  "fadd x y =
     (case (x, y) of
        (NaN, _) \<Rightarrow> NaN
      | (_, NaN) \<Rightarrow> NaN
      | (Finite a, Finite b) \<Rightarrow> fl_ext (a + b)
      | (Finite a, _) \<Rightarrow> y
      | (_, Finite b) \<Rightarrow> x
      | _ \<Rightarrow> (if x = y then x else NaN))"

definition fmul :: "pyfloat \<Rightarrow> pyfloat \<Rightarrow> pyfloat" where
  "fmul x y =
     (case (x, y) of
        (NaN, _) \<Rightarrow> NaN
      | (_, NaN) \<Rightarrow> NaN
      | (Finite a, Finite b) \<Rightarrow> fl_ext (a * b)
      | _ \<Rightarrow> inf_of_sign (fsgn x * fsgn y))"

definition fneg :: "pyfloat \<Rightarrow> pyfloat" where
  "fneg x = (case x of Finite q \<Rightarrow> Finite (- q) | PosInf \<Rightarrow> NegInf | NegInf \<Rightarrow> PosInf
             | NaN \<Rightarrow> NaN)"

text \<open>\<^verbatim>\<open>x / n\<close> for a float and a Python integer: the integer is converted first.\<close>

definition fdiv_int :: "pyfloat \<Rightarrow> int \<Rightarrow> py_error + pyfloat" where
  "fdiv_int x n =
     (case py_float n of
        Inl e \<Rightarrow> Inl e
      | Inr c \<Rightarrow>
          if c = 0 then Inl ZeroDivisionError
          else Inr (case x of
                      Finite a \<Rightarrow> fl_ext (a / c)
                    | NaN \<Rightarrow> NaN
                    | _ \<Rightarrow> inf_of_sign (fsgn x * fsgn (Finite c))))"

text \<open>
  \<^verbatim>\<open>round(x, ndigits)\<close> for \<open>0 \<le> ndigits\<close>: the decimal with \<open>ndigits\<close> places nearest to the
  exact value of \<open>x\<close> (ties to even), converted back to the nearest float.
\<close>

definition py_round :: "nat \<Rightarrow> pyfloat \<Rightarrow> pyfloat" where
  "py_round ndigits x =
     (case x of
        Finite q \<Rightarrow> Finite (fl (of_int (round_half_even (q * 10 ^ ndigits)) / 10 ^ ndigits))
      | _ \<Rightarrow> x)"

text \<open>
  The order of \<^verbatim>\<open><\<close> on floats that are not NaN, as a key into a linear order.
\<close>

definition float_rank :: "pyfloat \<Rightarrow> int \<times> rat" where
  "float_rank x = (case x of NaN \<Rightarrow> (- 2, 0) | NegInf \<Rightarrow> (- 1, 0) | Finite q \<Rightarrow> (0, q)
                   | PosInf \<Rightarrow> (1, 0))"

section \<open>Objective model (app/core/objective.py)\<close>

text \<open>\<^verbatim>\<open>if session.cluster_tag:\<close> holds for a tag that is neither \<^verbatim>\<open>None\<close> nor empty.\<close>

definition truthy_tag :: "string option \<Rightarrow> bool" where
  "truthy_tag t = (case t of None \<Rightarrow> False | Some s \<Rightarrow> s \<noteq> [])"

definition assignment_local_score ::
  "course_session \<Rightarrow> string set \<Rightarrow> int \<Rightarrow> string \<Rightarrow> day \<Rightarrow> objective_weights \<Rightarrow> day set
     \<Rightarrow> py_error + int" where
  "assignment_local_score session instructor_preferred_slots room_capacity time_slot_id
       slot_day weights existing_cluster_days =
     (let score1 = (if time_slot_id \<in> instructor_preferred_slots
                    then 100 * w_instructor_preference weights else 0)
      in case (if room_capacity > 0
               then (case utilization (enrollment session) room_capacity of
                       Inl e \<Rightarrow> Inl e
                     | Inr u \<Rightarrow> Inr (score1 + u * w_room_efficiency weights))
               else Inr score1) of
           Inl e \<Rightarrow> Inl e
         | Inr score2 \<Rightarrow>
             let score3 = (if preferred_time_slots session \<noteq> []
                              \<and> time_slot_id \<in> set (preferred_time_slots session)
                           then score2 + priority session * 20 * w_course_priority weights
                           else score2)
             in Inr (if truthy_tag (cluster_tag session) \<and> existing_cluster_days \<noteq> {}
                     then (if slot_day \<in> existing_cluster_days
                           then score3 + 50 * w_cluster_compactness weights
                           else score3 - 100 * w_cluster_compactness weights)
                     else score3))"

record objective_state =
  instructor_component :: int
  room_component :: int
  priority_component :: int
  cluster_days :: "(string \<times> day set) list"
  cluster_counts :: "(string \<times> int) list"

record objective_breakdown =
  ob_instructor_preference :: rat
  ob_room_efficiency :: rat
  ob_course_priority :: rat
  ob_cluster_compactness :: rat
  ob_total :: rat

record octx =
  o_session_by_id :: "(string \<times> course_session) list"
  o_instructor_by_id :: "(string \<times> instructor) list"
  o_room_by_id :: "(string \<times> room) list"
  o_slot_by_id :: "(string \<times> time_slot) list"

definition mk_octx :: "scheduling_input \<Rightarrow> octx" where
  "mk_octx data =
     \<lparr> o_session_by_id = dict_by session_id (expand_course_sessions (courses data)),
       o_instructor_by_id = dict_by i_id (instructors data),
       o_room_by_id = dict_by r_id (rooms data),
       o_slot_by_id = dict_by ts_id (time_slots data) \<rparr>"

text \<open>The body of \<^verbatim>\<open>for assignment in assignments\<close> in \<^verbatim>\<open>compute_objective_breakdown\<close>.\<close>

definition objective_step ::
  "octx \<Rightarrow> objective_weights \<Rightarrow> objective_state \<Rightarrow> schedule_assignment
     \<Rightarrow> py_error + objective_state" where
  "objective_step ctx weights st a =
     (case (map_of (o_session_by_id ctx) (a_session_id a),
            map_of (o_instructor_by_id ctx) (a_instructor_id a),
            map_of (o_room_by_id ctx) (a_room_id a),
            map_of (o_slot_by_id ctx) (a_time_slot_id a)) of
        (Some session, Some instructor, Some room, Some slot) \<Rightarrow>
          (case utilization (enrollment session) (r_capacity room) of
             Inl e \<Rightarrow> Inl e
           | Inr u \<Rightarrow>
               Inr \<lparr> instructor_component =
                       (if a_time_slot_id a \<in> set (i_preferred_time_slots instructor)
                        then instructor_component st + 100 * w_instructor_preference weights
                        else instructor_component st),
                     room_component = room_component st + u * w_room_efficiency weights,
                     priority_component =
                       (if preferred_time_slots session \<noteq> []
                           \<and> a_time_slot_id a \<in> set (preferred_time_slots session)
                        then priority_component st
                               + priority session * 20 * w_course_priority weights
                        else priority_component st),
                     cluster_days =
                       (case cluster_tag session of
                          Some tag \<Rightarrow>
                            if tag \<noteq> [] then
                              AList.update tag
                                (insert (ts_day slot)
                                   (case map_of (cluster_days st) tag of
                                      None \<Rightarrow> {} | Some days \<Rightarrow> days))
                                (cluster_days st)
                            else cluster_days st
                        | None \<Rightarrow> cluster_days st),
                     cluster_counts =
                       (case cluster_tag session of
                          Some tag \<Rightarrow>
                            if tag \<noteq> [] then
                              AList.update tag
                                ((case map_of (cluster_counts st) tag of
                                    None \<Rightarrow> 0 | Some n \<Rightarrow> n) + 1)
                                (cluster_counts st)
                            else cluster_counts st
                        | None \<Rightarrow> cluster_counts st) \<rparr>)
      | _ \<Rightarrow> Inr st)"

fun objective_loop ::
  "octx \<Rightarrow> objective_weights \<Rightarrow> objective_state \<Rightarrow> schedule_assignment list
     \<Rightarrow> py_error + objective_state" where
  "objective_loop ctx weights st [] = Inr st"
| "objective_loop ctx weights st (a # as) =
     (case objective_step ctx weights st a of
        Inl e \<Rightarrow> Inl e
      | Inr st' \<Rightarrow> objective_loop ctx weights st' as)"

definition objective_init :: objective_state where
  "objective_init = \<lparr> instructor_component = 0, room_component = 0, priority_component = 0,
     cluster_days = [], cluster_counts = [] \<rparr>"

text \<open>
  \<^verbatim>\<open>sum(len(days) for tag, days in cluster_days.items() if cluster_counts.get(tag, 0) > 1)\<close>
\<close>

definition cluster_penalty_units :: "objective_state \<Rightarrow> int" where
  "cluster_penalty_units st =
     sum_list (map (\<lambda>(tag, days). int (card days))
       (filter (\<lambda>(tag, days). (case map_of (cluster_counts st) tag of
                                    None \<Rightarrow> 0 | Some n \<Rightarrow> n) > 1)
          (cluster_days st)))"

text \<open>The four integer components and their total, before the conversion to floats.\<close>

record objective_components =
  oc_instructor :: int
  oc_room :: int
  oc_priority :: int
  oc_cluster :: int
  oc_total :: int

definition objective_components_of :: "objective_weights \<Rightarrow> objective_state \<Rightarrow> objective_components" where
  "objective_components_of weights st =
     (let cluster_component = - (cluster_penalty_units st * 100 * w_cluster_compactness weights)
      in \<lparr> oc_instructor = instructor_component st,
           oc_room = room_component st,
           oc_priority = priority_component st,
           oc_cluster = cluster_component,
           oc_total = instructor_component st + room_component st + priority_component st
                        + cluster_component \<rparr>)"

definition compute_objective_components ::
  "scheduling_input \<Rightarrow> schedule_assignment list \<Rightarrow> objective_weights
     \<Rightarrow> py_error + objective_components" where
  "compute_objective_components data assignments weights =
     (case objective_loop (mk_octx data) weights objective_init assignments of
        Inl e \<Rightarrow> Inl e
      | Inr st \<Rightarrow> Inr (objective_components_of weights st))"

text \<open>The returned dictionary: each component converted by \<^verbatim>\<open>float(...)\<close>.\<close>

definition breakdown_of_components :: "objective_components \<Rightarrow> py_error + objective_breakdown" where
  "breakdown_of_components c =
     (case (py_float (oc_instructor c), py_float (oc_room c), py_float (oc_priority c),
            py_float (oc_cluster c), py_float (oc_total c)) of
        (Inr i, Inr r, Inr p, Inr k, Inr t) \<Rightarrow>
          Inr \<lparr> ob_instructor_preference = i, ob_room_efficiency = r, ob_course_priority = p,
                ob_cluster_compactness = k, ob_total = t \<rparr>
      | _ \<Rightarrow> Inl OverflowError)"

definition compute_objective_breakdown ::
  "scheduling_input \<Rightarrow> schedule_assignment list \<Rightarrow> objective_weights
     \<Rightarrow> py_error + objective_breakdown" where
  "compute_objective_breakdown data assignments weights =
     (case compute_objective_components data assignments weights of
        Inl e \<Rightarrow> Inl e
      | Inr c \<Rightarrow> breakdown_of_components c)"

section \<open>Heuristic fallback solver (app/core/heuristic.py)\<close>

record heuristic_solve_output =
  h_status :: string
  h_assignments :: "schedule_assignment list"
  h_notes :: "string list"
  h_objective_breakdown :: objective_breakdown
  h_runtime_seconds :: pyfloat

text \<open>
  The candidates of one session with a known instructor: rooms in the order of
  \<^verbatim>\<open>room_by_id.values()\<close> (first insertion of each id), and within a room the slots in the
  order of \<^verbatim>\<open>sorted(data.time_slots, key=order)\<close>.
\<close>

definition session_options ::
  "room list \<Rightarrow> time_slot list \<Rightarrow> instructor \<Rightarrow> course_session \<Rightarrow> (string \<times> string) list" where
  "session_options room_values slots instructor session =
     concat (map (\<lambda>room.
         if r_capacity room < enrollment session then []
         else if \<not> set (required_features session) \<subseteq> set (r_features room) then []
         else map (\<lambda>slot. (r_id room, ts_id slot))
                (filter (\<lambda>slot.
                     \<not> (i_available_time_slots instructor \<noteq> []
                          \<and> ts_id slot \<notin> set (i_available_time_slots instructor))
                   \<and> \<not> (allowed_time_slots session \<noteq> []
                          \<and> ts_id slot \<notin> set (allowed_time_slots session)))
                   slots))
       room_values)"

definition build_feasible_candidates ::
  "scheduling_input \<Rightarrow> course_session list \<Rightarrow> (string \<times> (string \<times> string) list) list" where
  "build_feasible_candidates data sessions =
     (let instructor_by_id = dict_by i_id (instructors data);
          room_by_id = dict_by r_id (rooms data);
          slots = sort_key ts_order (time_slots data)
      in foldl (\<lambda>feasible session.
           case map_of instructor_by_id (s_instructor_id session) of
             None \<Rightarrow> AList.update (session_id session) [] feasible
           | Some instructor \<Rightarrow>
               AList.update (session_id session)
                 (session_options (map snd room_by_id) slots instructor session) feasible)
         [] sessions)"

record hctx =
  h_feasible_candidates :: "(string \<times> (string \<times> string) list) list"
  h_instructor_by_id :: "(string \<times> instructor) list"
  h_room_by_id :: "(string \<times> room) list"
  h_slot_by_id :: "(string \<times> time_slot) list"
  h_weights :: objective_weights

record hstate =
  occupied_room_slot :: "(string \<times> string) set"
  occupied_instructor_slot :: "(string \<times> string) set"
  course_days_used :: "string \<Rightarrow> day set"
  instructor_day_count :: "string \<times> day \<Rightarrow> int"
  cluster_days_used :: "string \<Rightarrow> day set"
  hs_assignments :: "schedule_assignment list"
  unscheduled :: "string list"

definition hstate_init :: hstate where
  "hstate_init = \<lparr> occupied_room_slot = {}, occupied_instructor_slot = {},
     course_days_used = (\<lambda>_. {}), instructor_day_count = (\<lambda>_. 0),
     cluster_days_used = (\<lambda>_. {}), hs_assignments = [], unscheduled = [] \<rparr>"

text \<open>\<^verbatim>\<open>cluster_days_used.get(session.cluster_tag, set())\<close>: only truthy tags are ever keys.\<close>

definition cluster_days_get :: "hstate \<Rightarrow> string option \<Rightarrow> day set" where
  "cluster_days_get st tag = (case tag of None \<Rightarrow> {} | Some t \<Rightarrow> cluster_days_used st t)"

text \<open>
  The four exclusion filters of the candidate scan, in the order of the source:
  room occupied, instructor occupied, course already on that day, daily cap reached.
\<close>

definition excluded ::
  "hstate \<Rightarrow> course_session \<Rightarrow> instructor \<Rightarrow> string \<Rightarrow> string \<Rightarrow> time_slot \<Rightarrow> bool" where
  "excluded st session instructor room_id slot_id slot =
     ((room_id, slot_id) \<in> occupied_room_slot st
      \<or> (s_instructor_id session, slot_id) \<in> occupied_instructor_slot st
      \<or> (avoid_same_day_sessions session
           \<and> ts_day slot \<in> course_days_used st (s_course_id session))
      \<or> (case i_max_sessions_per_day instructor of
            None \<Rightarrow> False
          | Some max_per_day \<Rightarrow>
              instructor_day_count st (s_instructor_id session, ts_day slot) \<ge> max_per_day))"

text \<open>
  \<^verbatim>\<open>for room_id, slot_id in candidates\<close>, threading \<^verbatim>\<open>(best_option, best_score)\<close>; both
  are \<^verbatim>\<open>None\<close> together.  The two subscripts raise KeyError on a missing key.
\<close>

fun scan_candidates ::
  "hctx \<Rightarrow> hstate \<Rightarrow> course_session \<Rightarrow> instructor \<Rightarrow> (string \<times> string) list
     \<Rightarrow> ((string \<times> string) \<times> int) option \<Rightarrow> py_error + ((string \<times> string) \<times> int) option" where
  "scan_candidates ctx st session instructor [] best = Inr best"
| "scan_candidates ctx st session instructor ((room_id, slot_id) # rest) best =
     (case map_of (h_slot_by_id ctx) slot_id of
        None \<Rightarrow> Inl KeyError
      | Some slot \<Rightarrow>
          (case map_of (h_room_by_id ctx) room_id of
             None \<Rightarrow> Inl KeyError
           | Some room \<Rightarrow>
               if excluded st session instructor room_id slot_id slot
               then scan_candidates ctx st session instructor rest best
               else
                 (case assignment_local_score session
                         (set (i_preferred_time_slots instructor)) (r_capacity room) slot_id
                         (ts_day slot) (h_weights ctx)
                         (cluster_days_get st (cluster_tag session)) of
                    Inl e \<Rightarrow> Inl e
                  | Inr score \<Rightarrow>
                      if (case best of None \<Rightarrow> True | Some (_, best_score) \<Rightarrow> score > best_score)
                      then scan_candidates ctx st session instructor rest
                             (Some ((room_id, slot_id), score))
                      else scan_candidates ctx st session instructor rest best)))"

definition mark_unscheduled :: "hstate \<Rightarrow> course_session \<Rightarrow> hstate" where
  "mark_unscheduled st session = st \<lparr> unscheduled := unscheduled st @ [session_id session] \<rparr>"

text \<open>The updates after a candidate has been chosen.\<close>

definition commit :: "hstate \<Rightarrow> course_session \<Rightarrow> string \<Rightarrow> string \<Rightarrow> time_slot \<Rightarrow> hstate" where
  "commit st session room_id slot_id slot =
     \<lparr> occupied_room_slot = insert (room_id, slot_id) (occupied_room_slot st),
       occupied_instructor_slot =
         insert (s_instructor_id session, slot_id) (occupied_instructor_slot st),
       course_days_used =
         (course_days_used st)
           (s_course_id session := insert (ts_day slot) (course_days_used st (s_course_id session))),
       instructor_day_count =
         (instructor_day_count st)
           ((s_instructor_id session, ts_day slot) :=
              instructor_day_count st (s_instructor_id session, ts_day slot) + 1),
       cluster_days_used =
         (case cluster_tag session of
            Some tag \<Rightarrow>
              if tag \<noteq> [] then
                (cluster_days_used st) (tag := insert (ts_day slot) (cluster_days_used st tag))
              else cluster_days_used st
          | None \<Rightarrow> cluster_days_used st),
       hs_assignments = hs_assignments st @
         [\<lparr> a_session_id = session_id session, a_course_id = s_course_id session,
            a_instructor_id = s_instructor_id session, a_room_id = room_id,
            a_time_slot_id = slot_id \<rparr>],
       unscheduled = unscheduled st \<rparr>"

text \<open>The body of \<^verbatim>\<open>for session in sorted_sessions\<close>.\<close>

definition place_session :: "hctx \<Rightarrow> hstate \<Rightarrow> course_session \<Rightarrow> py_error + hstate" where
  "place_session ctx st session =
     (case map_of (h_feasible_candidates ctx) (session_id session) of
        None \<Rightarrow> Inl KeyError
      | Some candidates \<Rightarrow>
          if candidates = [] then Inr (mark_unscheduled st session)
          else
            (case map_of (h_instructor_by_id ctx) (s_instructor_id session) of
               None \<Rightarrow> Inr (mark_unscheduled st session)
             | Some instructor \<Rightarrow>
                 (case scan_candidates ctx st session instructor candidates None of
                    Inl e \<Rightarrow> Inl e
                  | Inr None \<Rightarrow> Inr (mark_unscheduled st session)
                  | Inr (Some ((room_id, slot_id), _)) \<Rightarrow>
                      (case map_of (h_slot_by_id ctx) slot_id of
                         None \<Rightarrow> Inl KeyError
                       | Some slot \<Rightarrow> Inr (commit st session room_id slot_id slot)))))"

fun place_all :: "hctx \<Rightarrow> hstate \<Rightarrow> course_session list \<Rightarrow> py_error + hstate" where
  "place_all ctx st [] = Inr st"
| "place_all ctx st (session # rest) =
     (case place_session ctx st session of
        Inl e \<Rightarrow> Inl e
      | Inr st' \<Rightarrow> place_all ctx st' rest)"

definition mk_hctx :: "scheduling_input \<Rightarrow> course_session list \<Rightarrow> hctx" where
  "mk_hctx data sessions =
     \<lparr> h_feasible_candidates = build_feasible_candidates data sessions,
       h_instructor_by_id = dict_by i_id (instructors data),
       h_room_by_id = dict_by r_id (rooms data),
       h_slot_by_id = dict_by ts_id (time_slots data),
       h_weights = objective_weights (options data) \<rparr>"

text \<open>
  \<^verbatim>\<open>sorted(sessions, key=lambda s: (len(feasible_candidates[s.session_id]), -s.priority))\<close>:
  a stable sort; the subscript raises KeyError when a session id is no key of the table.
\<close>

definition sort_sessions ::
  "(string \<times> (string \<times> string) list) list \<Rightarrow> course_session list
     \<Rightarrow> py_error + course_session list" where
  "sort_sessions feasible sessions =
     (if \<exists>s \<in> set sessions. map_of feasible (session_id s) = None then Inl KeyError
      else Inr (sort_key (\<lambda>s. (length (the (map_of feasible (session_id s))), - priority s))
                  sessions))"

text \<open>
  The clock is read at entry and on return; \<open>t_start\<close> and \<open>t_end\<close> are the two readings
  of \<^verbatim>\<open>perf_counter()\<close>.
\<close>

definition solve_with_heuristic ::
  "rat \<Rightarrow> rat \<Rightarrow> scheduling_input \<Rightarrow> py_error + heuristic_solve_output" where
  "solve_with_heuristic t_start t_end data =
     (let sessions = expand_course_sessions (courses data);
          ctx = mk_hctx data sessions
      in case sort_sessions (h_feasible_candidates ctx) sessions of
           Inl e \<Rightarrow> Inl e
         | Inr sorted_sessions \<Rightarrow>
             (case place_all ctx hstate_init sorted_sessions of
                Inl e \<Rightarrow> Inl e
              | Inr st \<Rightarrow>
                  (case compute_objective_breakdown data (hs_assignments st)
                          (objective_weights (options data)) of
                     Inl e \<Rightarrow> Inl e
                   | Inr breakdown \<Rightarrow>
                       Inr \<lparr> h_status =
                               (if unscheduled st \<noteq> [] then ''fallback_partial''
                                else ''fallback''),
                             h_assignments = hs_assignments st,
                             h_notes =
                               [''Fallback heuristic solver executed.'',
                                ''Sessions are scheduled greedily by constrainedness and local weighted score.'']
                               @ (if unscheduled st \<noteq> [] then
                                    [str_nat (length (unscheduled st))
                                       @ '' session(s) were left unscheduled due to constraint overload.'']
                                  else []),
                             h_objective_breakdown = breakdown,
                             h_runtime_seconds = fl_ext (t_end - t_start) \<rparr>)))"

section \<open>Auxiliary notions for reasoning about the candidate scan\<close>

text \<open>
  What the scan makes of one candidate: an error, nothing (the candidate is excluded), or
  its local score.
\<close>

definition candidate_eval ::
  "hctx \<Rightarrow> hstate \<Rightarrow> course_session \<Rightarrow> instructor \<Rightarrow> string \<times> string
     \<Rightarrow> py_error + int option" where
  "candidate_eval ctx st session instructor cand =
     (case cand of (room_id, slot_id) \<Rightarrow>
        (case map_of (h_slot_by_id ctx) slot_id of
           None \<Rightarrow> Inl KeyError
         | Some slot \<Rightarrow>
             (case map_of (h_room_by_id ctx) room_id of
                None \<Rightarrow> Inl KeyError
              | Some room \<Rightarrow>
                  if excluded st session instructor room_id slot_id slot then Inr None
                  else
                    (case assignment_local_score session
                            (set (i_preferred_time_slots instructor)) (r_capacity room) slot_id
                            (ts_day slot) (h_weights ctx)
                            (cluster_days_get st (cluster_tag session)) of
                       Inl e \<Rightarrow> Inl e
                     | Inr score \<Rightarrow> Inr (Some score)))))"

text \<open>The surviving candidates with their scores, in candidate order.\<close>

fun survivors ::
  "hctx \<Rightarrow> hstate \<Rightarrow> course_session \<Rightarrow> instructor \<Rightarrow> (string \<times> string) list
     \<Rightarrow> py_error + ((string \<times> string) \<times> int) list" where
  "survivors ctx st session instructor [] = Inr []"
| "survivors ctx st session instructor (cand # rest) =
     (case candidate_eval ctx st session instructor cand of
        Inl e \<Rightarrow> Inl e
      | Inr r \<Rightarrow>
          (case survivors ctx st session instructor rest of
             Inl e \<Rightarrow> Inl e
           | Inr l \<Rightarrow> Inr (case r of None \<Rightarrow> l | Some score \<Rightarrow> (cand, score) # l)))"

text \<open>The first entry of a scored list whose score is the maximum of the list.\<close>

definition earliest_best :: "('a \<times> int) list \<Rightarrow> ('a \<times> int) option" where
  "earliest_best xs = find (\<lambda>x. snd x = Max (snd ` set xs)) xs"

definition better :: "('a \<times> int) option \<Rightarrow> 'a \<times> int \<Rightarrow> ('a \<times> int) option" where
  "better best x =
     (if (case best of None \<Rightarrow> True | Some (_, best_score) \<Rightarrow> snd x > best_score)
      then Some x else best)"

text \<open>The candidate list the table holds for the id of a session.\<close>

definition candidates_for :: "scheduling_input \<Rightarrow> course_session \<Rightarrow> (string \<times> string) list" where
  "candidates_for data session =
     (case map_of (dict_by i_id (instructors data)) (s_instructor_id session) of
        None \<Rightarrow> []
      | Some instructor \<Rightarrow>
          session_options (map snd (dict_by r_id (rooms data)))
            (sort_key ts_order (time_slots data)) instructor session)"

text \<open>The record the heuristic appends for a session placed in a room at a slot.\<close>

definition placement :: "course_session \<Rightarrow> string \<times> string \<Rightarrow> schedule_assignment" where
  "placement session cand =
     \<lparr> a_session_id = session_id session, a_course_id = s_course_id session,
       a_instructor_id = s_instructor_id session, a_room_id = fst cand,
       a_time_slot_id = snd cand \<rparr>"

section \<open>Metrics (app/core/metrics.py)\<close>

record schedule_metrics =
  sessions_required :: nat
  sessions_scheduled :: nat
  coverage_pct :: pyfloat
  room_utilization_pct :: pyfloat
  instructor_preference_pct :: pyfloat
  hard_violations :: nat
  m_objective_breakdown :: objective_breakdown

record metrics_state =
  utilization_sum :: pyfloat
  utilization_count :: nat
  preference_hits :: nat

text \<open>The body of \<^verbatim>\<open>for assignment in assignments\<close> in \<^verbatim>\<open>build_metrics\<close>.\<close>

definition metrics_step ::
  "octx \<Rightarrow> metrics_state \<Rightarrow> schedule_assignment \<Rightarrow> py_error + metrics_state" where
  "metrics_step ctx st a =
     (case (case (map_of (o_session_by_id ctx) (a_session_id a),
                  map_of (o_room_by_id ctx) (a_room_id a)) of
              (Some session, Some room) \<Rightarrow>
                if r_capacity room > 0 then
                  (case py_truediv (enrollment session) (r_capacity room) of
                     Inl e \<Rightarrow> Inl e
                   | Inr ratio \<Rightarrow>
                       Inr (st \<lparr> utilization_sum := fadd (utilization_sum st) (Finite ratio),
                                 utilization_count := utilization_count st + 1 \<rparr>))
                else Inr st
            | _ \<Rightarrow> Inr st) of
        Inl e \<Rightarrow> Inl e
      | Inr st1 \<Rightarrow>
          Inr (case map_of (o_instructor_by_id ctx) (a_instructor_id a) of
                 Some instructor \<Rightarrow>
                   if i_preferred_time_slots instructor \<noteq> []
                      \<and> a_time_slot_id a \<in> set (i_preferred_time_slots instructor)
                   then st1 \<lparr> preference_hits := preference_hits st1 + 1 \<rparr>
                   else st1
               | None \<Rightarrow> st1))"

fun metrics_loop ::
  "octx \<Rightarrow> metrics_state \<Rightarrow> schedule_assignment list \<Rightarrow> py_error + metrics_state" where
  "metrics_loop ctx st [] = Inr st"
| "metrics_loop ctx st (a # as) =
     (case metrics_step ctx st a of
        Inl e \<Rightarrow> Inl e
      | Inr st' \<Rightarrow> metrics_loop ctx st' as)"

text \<open>\<^verbatim>\<open>(a / b) * 100.0 if b else 0.0\<close> on two counts.\<close>

definition pct_of_counts :: "nat \<Rightarrow> nat \<Rightarrow> py_error + pyfloat" where
  "pct_of_counts a b =
     (if b \<noteq> 0 then
        (case py_truediv (int a) (int b) of
           Inl e \<Rightarrow> Inl e
         | Inr r \<Rightarrow> Inr (fmul (Finite r) (Finite 100)))
      else Inr (Finite 0))"

definition build_metrics ::
  "scheduling_input \<Rightarrow> schedule_assignment list \<Rightarrow> validation_report \<Rightarrow> objective_breakdown
     \<Rightarrow> py_error + schedule_metrics" where
  "build_metrics data assignments validation breakdown =
     (let sessions = expand_course_sessions (courses data);
          required = length sessions;
          scheduled = length assignments
      in case pct_of_counts scheduled required of
           Inl e \<Rightarrow> Inl e
         | Inr coverage \<Rightarrow>
             (case metrics_loop (mk_octx data)
                     \<lparr> utilization_sum = Finite 0, utilization_count = 0, preference_hits = 0 \<rparr>
                     assignments of
                Inl e \<Rightarrow> Inl e
              | Inr st \<Rightarrow>
                  (case (if utilization_count st \<noteq> 0 then
                           (case fdiv_int (utilization_sum st) (int (utilization_count st)) of
                              Inl e \<Rightarrow> Inl e
                            | Inr mean \<Rightarrow> Inr (fmul mean (Finite 100)))
                         else Inr (Finite 0)) of
                     Inl e \<Rightarrow> Inl e
                   | Inr room_utilization \<Rightarrow>
                       (case pct_of_counts (preference_hits st) scheduled of
                          Inl e \<Rightarrow> Inl e
                        | Inr instructor_preference \<Rightarrow>
                            Inr \<lparr> sessions_required = required,
                                  sessions_scheduled = scheduled,
                                  coverage_pct = py_round 2 coverage,
                                  room_utilization_pct = py_round 2 room_utilization,
                                  instructor_preference_pct = py_round 2 instructor_preference,
                                  hard_violations =
                                    length (filter (\<lambda>i. level i = Error) (issues validation)),
                                  m_objective_breakdown = breakdown \<rparr>))))"

section \<open>Exact model builder and solver adapter (app/core/solver.py)\<close>

text \<open>The status codes of the external CP-SAT engine and their texts.\<close>

datatype cp_status = OPTIMAL | FEASIBLE | INFEASIBLE | MODEL_INVALID | UNKNOWN

definition cp_status_to_text :: "cp_status \<Rightarrow> string" where
  "cp_status_to_text s =
     (case s of OPTIMAL \<Rightarrow> ''optimal'' | FEASIBLE \<Rightarrow> ''feasible'' | INFEASIBLE \<Rightarrow> ''infeasible''
      | MODEL_INVALID \<Rightarrow> ''model_invalid'' | UNKNOWN \<Rightarrow> ''unknown'')"

text \<open>
  The model handed to the engine.  A decision variable \<open>XVar i\<close> is the \<open>i\<close>-th variable
  created by \<^verbatim>\<open>model.NewBoolVar\<close> in the triple loop, \<open>UsedVar j\<close> the \<open>j\<close>-th cluster
  day-used indicator.  The constraints are the linear constraints of the \<^verbatim>\<open>model.Add\<close> calls:
  \<open>sum vs = n\<close>, \<open>sum vs \<le> n\<close>, \<open>v \<le> u\<close> and \<open>sum vs \<ge> u\<close>.
\<close>

datatype cvar = XVar nat | UsedVar nat

datatype cp_constraint =
    SumEq "cvar list" int
  | SumLe "cvar list" int
  | VarLe cvar cvar
  | SumGe "cvar list" cvar

record cp_model =
  cm_constraints :: "cp_constraint list"
  cm_objective :: "(int \<times> cvar) list"
  cm_max_time_in_seconds :: int
  cm_num_search_workers :: int

type_synonym cp_engine = "cp_model \<Rightarrow> cp_status \<times> (cvar \<Rightarrow> bool)"

text \<open>What the triple loop records for one created variable.\<close>

record var_info =
  vi_session :: course_session
  vi_room :: room
  vi_slot :: time_slot
  vi_instructor :: instructor
  vi_utilization :: int

fun sum_mapM :: "('a \<Rightarrow> 'e + 'b) \<Rightarrow> 'a list \<Rightarrow> 'e + 'b list" where
  "sum_mapM f [] = Inr []"
| "sum_mapM f (x # xs) =
     (case f x of
        Inl e \<Rightarrow> Inl e
      | Inr y \<Rightarrow> (case sum_mapM f xs of Inl e \<Rightarrow> Inl e | Inr ys \<Rightarrow> Inr (y # ys)))"

text \<open>The feasible (room, slot) pairs of a session: all rooms of the input, slots by order.\<close>

definition feasible_pairs ::
  "room list \<Rightarrow> time_slot list \<Rightarrow> instructor \<Rightarrow> course_session \<Rightarrow> (room \<times> time_slot) list" where
  "feasible_pairs rooms_list slots instructor session =
     concat (map (\<lambda>room.
         if r_capacity room < enrollment session then []
         else if \<not> set (required_features session) \<subseteq> set (r_features room) then []
         else map (\<lambda>slot. (room, slot))
                (filter (\<lambda>slot.
                     \<not> (i_available_time_slots instructor \<noteq> []
                          \<and> ts_id slot \<notin> set (i_available_time_slots instructor))
                   \<and> \<not> (allowed_time_slots session \<noteq> []
                          \<and> ts_id slot \<notin> set (allowed_time_slots session)))
                   slots))
       rooms_list)"

text \<open>
  The body of the first \<^verbatim>\<open>for session in sessions\<close>: the subscript
  \<^verbatim>\<open>instructor_by_id[...]\<close> and the utilization of each created variable can raise.
\<close>

definition session_vars ::
  "scheduling_input \<Rightarrow> course_session \<Rightarrow> py_error + var_info list" where
  "session_vars data session =
     (case map_of (dict_by i_id (instructors data)) (s_instructor_id session) of
        None \<Rightarrow> Inl KeyError
      | Some instructor \<Rightarrow>
          sum_mapM (\<lambda>(room, slot).
              case utilization (enrollment session) (r_capacity room) of
                Inl e \<Rightarrow> Inl e
              | Inr u \<Rightarrow>
                  Inr \<lparr> vi_session = session, vi_room = room, vi_slot = slot,
                        vi_instructor = instructor, vi_utilization = u \<rparr>)
            (feasible_pairs (rooms data) (sort_key ts_order (time_slots data))
               instructor session))"

definition model_vars :: "scheduling_input \<Rightarrow> py_error + var_info list" where
  "model_vars data =
     (case sum_mapM (session_vars data) (expand_course_sessions (courses data)) of
        Inl e \<Rightarrow> Inl e
      | Inr vss \<Rightarrow> Inr (concat vss))"

definition var_key :: "var_info \<Rightarrow> string \<times> string \<times> string \<times> string \<times> string" where
  "var_key v =
     (session_id (vi_session v), s_course_id (vi_session v), s_instructor_id (vi_session v),
      r_id (vi_room v), ts_id (vi_slot v))"

text \<open>\<^verbatim>\<open>x[key] = var\<close> for every created variable, in creation order.\<close>

definition x_dict ::
  "var_info list \<Rightarrow> ((string \<times> string \<times> string \<times> string \<times> string) \<times> nat) list" where
  "x_dict vs = foldl (\<lambda>d (i, v). AList.update (var_key v) i d) [] (enumerate 0 vs)"

text \<open>\<^verbatim>\<open>vars_by_...[key].append(var)\<close> for the created variables selected by \<open>P\<close>.\<close>

definition vars_by :: "(var_info \<Rightarrow> bool) \<Rightarrow> (var_info \<Rightarrow> 'k) \<Rightarrow> var_info list \<Rightarrow> ('k \<times> nat list) list" where
  "vars_by P key vs =
     foldl (\<lambda>d (i, v). if P v then usage_append d (key v) i else d) [] (enumerate 0 vs)"

definition day_name :: "day \<Rightarrow> string" where
  "day_name d = (case d of Mon \<Rightarrow> ''Mon'' | Tue \<Rightarrow> ''Tue'' | Wed \<Rightarrow> ''Wed'' | Thu \<Rightarrow> ''Thu''
                 | Fri \<Rightarrow> ''Fri'' | Sat \<Rightarrow> ''Sat'' | Sun \<Rightarrow> ''Sun'')"

text \<open>\<^verbatim>\<open>sorted({slot.day for slot in slots})\<close>\<close>

definition sorted_days :: "time_slot list \<Rightarrow> day list" where
  "sorted_days slots = sort_key day_name (remdups (map ts_day slots))"

text \<open>\<^verbatim>\<open>cluster_session_count[tag] += 1\<close> for every session with a tag.\<close>

definition cluster_session_count :: "course_session list \<Rightarrow> (string \<times> int) list" where
  "cluster_session_count sessions =
     foldl (\<lambda>d s. case cluster_tag s of
                     Some tag \<Rightarrow>
                       if tag \<noteq> [] then
                         AList.update tag ((case map_of d tag of None \<Rightarrow> 0 | Some n \<Rightarrow> n) + 1) d
                       else d
                   | None \<Rightarrow> d)
       [] sessions"

text \<open>The entries of \<^verbatim>\<open>vars_by_cluster_day\<close> that get a day-used indicator, in order.\<close>

definition cluster_day_groups :: "course_session list \<Rightarrow> var_info list \<Rightarrow> ((string \<times> day) \<times> nat list) list" where
  "cluster_day_groups sessions vs =
     filter (\<lambda>((tag, d), day_vars).
         \<not> (case map_of (cluster_session_count sessions) tag of None \<Rightarrow> 0 | Some n \<Rightarrow> n) \<le> 1)
       (vars_by (\<lambda>v. truthy_tag (cluster_tag (vi_session v)))
          (\<lambda>v. (the (cluster_tag (vi_session v)), ts_day (vi_slot v))) vs)"

definition model_constraints :: "scheduling_input \<Rightarrow> var_info list \<Rightarrow> cp_constraint list" where
  "model_constraints data vs =
     (let sessions = expand_course_sessions (courses data);
          days = sorted_days (sort_key ts_order (time_slots data))
      in map (\<lambda>s. SumEq (map XVar (case map_of (vars_by (\<lambda>_. True)
                                          (\<lambda>v. session_id (vi_session v)) vs) (session_id s) of
                                       None \<Rightarrow> [] | Some l \<Rightarrow> l)) 1) sessions
         @ map (\<lambda>(k, l). SumLe (map XVar l) 1)
             (filter (\<lambda>(k, l). length l > 1)
                (vars_by (\<lambda>_. True) (\<lambda>v. (r_id (vi_room v), ts_id (vi_slot v))) vs))
         @ map (\<lambda>(k, l). SumLe (map XVar l) 1)
             (filter (\<lambda>(k, l). length l > 1)
                (vars_by (\<lambda>_. True)
                   (\<lambda>v. (s_instructor_id (vi_session v), ts_id (vi_slot v))) vs))
         @ concat (map (\<lambda>course.
               if \<not> c_avoid_same_day_sessions course \<or> c_sessions_per_week course \<le> 1 then []
               else concat (map (\<lambda>d.
                      case map_of (vars_by (\<lambda>_. True)
                                     (\<lambda>v. (s_course_id (vi_session v), ts_day (vi_slot v))) vs)
                             (c_id course, d) of
                        None \<Rightarrow> []
                      | Some l \<Rightarrow> if l \<noteq> [] then [SumLe (map XVar l) 1] else []) days))
             (courses data))
         @ concat (map (\<lambda>instructor.
               case i_max_sessions_per_day instructor of
                 None \<Rightarrow> []
               | Some max_per_day \<Rightarrow>
                   concat (map (\<lambda>d.
                      case map_of (vars_by (\<lambda>_. True)
                                     (\<lambda>v. (s_instructor_id (vi_session v), ts_day (vi_slot v))) vs)
                             (i_id instructor, d) of
                        None \<Rightarrow> []
                      | Some l \<Rightarrow> if l \<noteq> [] then [SumLe (map XVar l) max_per_day] else []) days))
             (instructors data))
         @ concat (map (\<lambda>(j, (k, l)).
               map (\<lambda>i. VarLe (XVar i) (UsedVar j)) l @ [SumGe (map XVar l) (UsedVar j)])
             (enumerate 0 (cluster_day_groups sessions vs))))"

definition model_objective :: "scheduling_input \<Rightarrow> var_info list \<Rightarrow> (int \<times> cvar) list" where
  "model_objective data vs =
     (let weights = objective_weights (options data);
          sessions = expand_course_sessions (courses data)
      in map (\<lambda>(i, v). (100 * w_instructor_preference weights, XVar i))
           (filter (\<lambda>(i, v). ts_id (vi_slot v) \<in> set (i_preferred_time_slots (vi_instructor v)))
              (enumerate 0 vs))
         @ map (\<lambda>(i, v). (w_room_efficiency weights * vi_utilization v, XVar i)) (enumerate 0 vs)
         @ map (\<lambda>(i, v). (w_course_priority weights * (priority (vi_session v) * 20), XVar i))
             (filter (\<lambda>(i, v). preferred_time_slots (vi_session v) \<noteq> []
                              \<and> ts_id (vi_slot v) \<in> set (preferred_time_slots (vi_session v)))
                (enumerate 0 vs))
         @ map (\<lambda>(j, g). (- 100 * w_cluster_compactness weights, UsedVar j))
             (enumerate 0 (cluster_day_groups sessions vs)))"

definition build_model :: "scheduling_input \<Rightarrow> var_info list \<Rightarrow> cp_model" where
  "build_model data vs =
     \<lparr> cm_constraints = model_constraints data vs,
       cm_objective = model_objective data vs,
       cm_max_time_in_seconds = time_limit_seconds (options data),
       cm_num_search_workers = num_workers (options data) \<rparr>"

text \<open>The assignments decoded from \<^verbatim>\<open>x.items()\<close> under the engine's values.\<close>

definition decode_assignments :: "var_info list \<Rightarrow> (cvar \<Rightarrow> bool) \<Rightarrow> schedule_assignment list" where
  "decode_assignments vs val =
     map (\<lambda>((sid, cid, iid, rid, tid), i).
            \<lparr> a_session_id = sid, a_course_id = cid, a_instructor_id = iid, a_room_id = rid,
              a_time_slot_id = tid \<rparr>)
       (filter (\<lambda>(k, i). val (XVar i)) (x_dict vs))"

text \<open>\<^verbatim>\<open>", ".join(names)\<close>\<close>

fun join_comma :: "string list \<Rightarrow> string" where
  "join_comma [] = []"
| "join_comma [x] = x"
| "join_comma (x # y # ys) = x @ '', '' @ join_comma (y # ys)"

text \<open>
  \<^verbatim>\<open>_solve_with_cp_sat\<close>: status, runtime, assignments and notes.  The engine is a
  parameter; \<open>t_start\<close> and \<open>t_end\<close> are the clock readings at entry and at the return taken.
\<close>

definition solve_with_cp_sat ::
  "cp_engine \<Rightarrow> rat \<Rightarrow> rat \<Rightarrow> scheduling_input
     \<Rightarrow> py_error + (string \<times> pyfloat \<times> schedule_assignment list \<times> string list)" where
  "solve_with_cp_sat engine t_start t_end data =
     (let sessions = expand_course_sessions (courses data);
          instructor_by_id = dict_by i_id (instructors data);
          unknown_instructors =
            filter (\<lambda>iid. map_of instructor_by_id iid = None) (map c_instructor_id (courses data));
          runtime = fl_ext (t_end - t_start)
      in if unknown_instructors \<noteq> [] then
           Inr (''model_invalid'', runtime, [],
                [''Unknown instructor id(s) detected in course input: ''
                   @ join_comma (sorted_set unknown_instructors)])
         else
           (case model_vars data of
              Inl e \<Rightarrow> Inl e
            | Inr vs \<Rightarrow>
                (case find (\<lambda>s. (case map_of (vars_by (\<lambda>_. True)
                                                 (\<lambda>v. session_id (vi_session v)) vs)
                                         (session_id s) of
                                    None \<Rightarrow> [] | Some l \<Rightarrow> l) = []) sessions of
                   Some s \<Rightarrow>
                     Inr (''infeasible'', runtime, [],
                          [''No feasible assignment exists for session '' @ [CHR 0x27]
                             @ session_id s @ [CHR 0x27] @ ''.''])
                 | None \<Rightarrow>
                     (case engine (build_model data vs) of
                        (status_code, val) \<Rightarrow>
                          Inr (cp_status_to_text status_code, runtime,
                               (if status_code = OPTIMAL \<or> status_code = FEASIBLE
                                then decode_assignments vs val else []),
                               [])))))"

section \<open>Result building and strategy selection (app/core/solver.py)\<close>

datatype solver_name = Solver_cp_sat | Solver_heuristic

datatype solver_mode = Auto | Cp_sat | Heuristic

record schedule_result =
  sr_status :: string
  sr_solver :: solver_name
  sr_runtime_seconds :: pyfloat
  sr_objective_value :: rat
  sr_assignments :: "schedule_assignment list"
  sr_metrics :: schedule_metrics
  sr_notes :: "string list"

text \<open>\<^verbatim>\<open>_build_result\<close>: validation, objective and metrics over the assignment list.\<close>

definition build_result ::
  "string \<Rightarrow> solver_name \<Rightarrow> pyfloat \<Rightarrow> schedule_assignment list \<Rightarrow> string list
     \<Rightarrow> scheduling_input \<Rightarrow> py_error + (schedule_result \<times> validation_report)" where
  "build_result status solver runtime_seconds assignments notes data =
     (let validation = validate_schedule data assignments
      in case compute_objective_breakdown data assignments (objective_weights (options data)) of
           Inl e \<Rightarrow> Inl e
         | Inr breakdown \<Rightarrow>
             (case build_metrics data assignments validation breakdown of
                Inl e \<Rightarrow> Inl e
              | Inr metrics \<Rightarrow>
                  Inr (\<lparr> sr_status = status,
                         sr_solver = solver,
                         sr_runtime_seconds = py_round 4 runtime_seconds,
                         sr_objective_value = ob_total breakdown,
                         sr_assignments = sort_key a_session_id assignments,
                         sr_metrics = metrics,
                         sr_notes = notes \<rparr>,
                       validation)))"

text \<open>
  The clock readings of one call of \<^verbatim>\<open>solve_schedule\<close>: entry and return of the exact
  path, entry and return of the heuristic.
\<close>

record clock_readings =
  cp_start :: rat
  cp_end :: rat
  heuristic_start :: rat
  heuristic_end :: rat

definition solve_schedule ::
  "cp_engine \<Rightarrow> clock_readings \<Rightarrow> scheduling_input \<Rightarrow> solver_mode
     \<Rightarrow> py_error + (schedule_result \<times> validation_report)" where
  "solve_schedule engine clock data solver_mode =
     (if solver_mode = Heuristic then
        (case solve_with_heuristic (heuristic_start clock) (heuristic_end clock) data of
           Inl e \<Rightarrow> Inl e
         | Inr heuristic_output \<Rightarrow>
             build_result (h_status heuristic_output) Solver_heuristic
               (h_runtime_seconds heuristic_output) (h_assignments heuristic_output)
               (h_notes heuristic_output) data)
      else
        (case solve_with_cp_sat engine (cp_start clock) (cp_end clock) data of
           Inl e \<Rightarrow> Inl e
         | Inr (cp_status, cp_runtime, cp_assignments, cp_notes) \<Rightarrow>
             if cp_status = ''optimal'' \<or> cp_status = ''feasible'' then
               build_result cp_status Solver_cp_sat cp_runtime cp_assignments cp_notes data
             else if solver_mode = Auto \<and> enable_fallback (options data) then
               (case solve_with_heuristic (heuristic_start clock) (heuristic_end clock) data of
                  Inl e \<Rightarrow> Inl e
                | Inr heuristic_output \<Rightarrow>
                    build_result (h_status heuristic_output) Solver_heuristic
                      (fadd cp_runtime (h_runtime_seconds heuristic_output))
                      (h_assignments heuristic_output)
                      ([''CP-SAT status: '' @ cp_status @ ''. Triggering fallback heuristic.'']
                         @ cp_notes @ h_notes heuristic_output)
                      data)
             else
               build_result cp_status Solver_cp_sat cp_runtime cp_assignments cp_notes data))"

section \<open>Scenario comparison (app/api/main.py)\<close>

record scenario_config =
  sc_name :: string
  sc_options :: solver_options
  sc_solver_mode :: solver_mode

record compare_request =
  cr_data :: scheduling_input
  cr_scenarios :: "scenario_config list"

record scenario_result =
  sn_name :: string
  sn_result :: schedule_result
  sn_validation :: validation_report

record compare_response =
  scenarios :: "scenario_result list"
  best_scenario :: "string option"

text \<open>
  The sort key \<^verbatim>\<open>(hard_violations, -objective_value, -coverage_pct)\<close>; the order of floats
  is that of \<open>float_rank\<close>.
\<close>

definition ranking_key :: "scenario_result \<Rightarrow> nat \<times> rat \<times> int \<times> rat" where
  "ranking_key item =
     (hard_violations (sr_metrics (sn_result item)),
      - sr_objective_value (sn_result item),
      float_rank (fneg (coverage_pct (sr_metrics (sn_result item)))))"

text \<open>The ranking after the scenario loop: \<^verbatim>\<open>sorted\<close> is stable.\<close>

definition rank_scenarios :: "scenario_result list \<Rightarrow> string option" where
  "rank_scenarios scenario_results =
     (if scenario_results \<noteq> [] then
        (case sort_key ranking_key scenario_results of
           [] \<Rightarrow> None
         | best # _ \<Rightarrow> Some (sn_name best))
      else None)"

text \<open>
  \<^verbatim>\<open>compare\<close>: every scenario is solved on a copy of the data with the scenario's options;
  \<open>clocks k\<close> are the clock readings of the \<open>k\<close>-th solve.
\<close>

definition solve_scenario ::
  "cp_engine \<Rightarrow> scheduling_input \<Rightarrow> clock_readings \<Rightarrow> scenario_config \<Rightarrow> py_error + scenario_result" where
  "solve_scenario engine data clock scenario =
     (case solve_schedule engine clock (data \<lparr> options := sc_options scenario \<rparr>)
             (sc_solver_mode scenario) of
        Inl e \<Rightarrow> Inl e
      | Inr (result, validation) \<Rightarrow>
          Inr \<lparr> sn_name = sc_name scenario, sn_result = result, sn_validation = validation \<rparr>)"

definition compare ::
  "cp_engine \<Rightarrow> (nat \<Rightarrow> clock_readings) \<Rightarrow> compare_request \<Rightarrow> py_error + compare_response" where
  "compare engine clocks payload =
     (case sum_mapM (\<lambda>(k, scenario). solve_scenario engine (cr_data payload) (clocks k) scenario)
             (enumerate 0 (cr_scenarios payload)) of
        Inl e \<Rightarrow> Inl e
      | Inr scenario_results \<Rightarrow>
          Inr \<lparr> scenarios = scenario_results,
                best_scenario = rank_scenarios scenario_results \<rparr>)"

section \<open>Example inputs\<close>

definition course_a :: course where
  "course_a = \<lparr> c_id = ''A'', c_name = ''Algebra'', c_instructor_id = ''I1'',
      c_enrollment = 30, c_sessions_per_week = 2, c_required_features = [],
      c_preferred_time_slots = [], c_allowed_time_slots = [], c_cluster_tag = None,
      c_priority = 5, c_avoid_same_day_sessions = True \<rparr>"

definition course_b :: course where
  "course_b = course_a \<lparr> c_id := ''B'', c_sessions_per_week := 1 \<rparr>"

definition slot_t1 :: time_slot where
  "slot_t1 = \<lparr> ts_id = ''T1'', ts_day = Mon, ts_start = ''09:00'', ts_end = ''10:15'',
      ts_order = 0 \<rparr>"

definition slot_t2 :: time_slot where
  "slot_t2 = \<lparr> ts_id = ''T2'', ts_day = Tue, ts_start = ''09:00'', ts_end = ''10:15'',
      ts_order = 1 \<rparr>"

definition room_r1 :: room where
  "room_r1 = \<lparr> r_id = ''R1'', r_name = ''Hall'', r_capacity = 30, r_features = [] \<rparr>"

definition room_r2 :: room where
  "room_r2 = \<lparr> r_id = ''R2'', r_name = ''Lab'', r_capacity = 40, r_features = [] \<rparr>"

definition instructor_i1 :: instructor where
  "instructor_i1 = \<lparr> i_id = ''I1'', i_name = ''Noether'', i_available_time_slots = [],
      i_preferred_time_slots = [], i_max_sessions_per_day = None \<rparr>"

definition default_weights :: objective_weights where
  "default_weights = \<lparr> w_instructor_preference = 5, w_room_efficiency = 3,
      w_cluster_compactness = 4, w_course_priority = 2 \<rparr>"

definition default_options :: solver_options where
  "default_options = \<lparr> time_limit_seconds = 15, num_workers = 8, enable_fallback = True,
      objective_weights = default_weights \<rparr>"

definition demo_input :: scheduling_input where
  "demo_input = \<lparr> courses = [course_a, course_b], instructors = [instructor_i1],
      rooms = [room_r1, room_r2], time_slots = [slot_t1, slot_t2], options = default_options \<rparr>"

definition assign :: "string \<Rightarrow> string \<Rightarrow> string \<Rightarrow> string \<Rightarrow> string \<Rightarrow> schedule_assignment" where
  "assign sid cid iid rid tid =
     \<lparr> a_session_id = sid, a_course_id = cid, a_instructor_id = iid, a_room_id = rid,
       a_time_slot_id = tid \<rparr>"

definition double_booked :: "schedule_assignment list" where
  "double_booked =
     [assign ''A::S1'' ''A'' ''I1'' ''R1'' ''T1'', assign ''A::S2'' ''A'' ''I1'' ''R1'' ''T1'',
      assign ''A::S1'' ''A'' ''I1'' ''R2'' ''T2'']"

definition no_instructor_input :: scheduling_input where
  "no_instructor_input = demo_input \<lparr> instructors := [] \<rparr>"

definition swapped_rooms_input :: scheduling_input where
  "swapped_rooms_input =
     \<lparr> courses = [course_b], instructors = [instructor_i1],
       rooms = [room_r2 \<lparr> r_capacity := 30 \<rparr>, room_r1], time_slots = [slot_t1],
       options = default_options \<rparr>"

definition shadowed_double_booking :: "schedule_assignment list" where
  "shadowed_double_booking =
     [assign ''X::S1'' ''X'' ''I1'' ''R1'' ''T1'', assign ''A::S1'' ''A'' ''I1'' ''R1'' ''T1'',
      assign ''A::S1'' ''A'' ''I1'' ''R2'' ''T2'', assign ''B::S1'' ''B'' ''I1'' ''R2'' ''T2'',
      assign ''A::S2'' ''A'' ''I1'' ''R2'' ''T2'']"

definition mixed_slots :: "schedule_assignment list" where
  "mixed_slots =
     [assign ''A::S1'' ''A'' ''I1'' ''R1'' ''T9'', assign ''A::S2'' ''A'' ''I1'' ''R1'' ''T2'',
      assign ''B::S1'' ''B'' ''I1'' ''R2'' ''T1'']"

definition infeasible_engine :: cp_engine where
  "infeasible_engine = (\<lambda>model. (INFEASIBLE, \<lambda>v. False))"

definition tiny_clock :: clock_readings where
  "tiny_clock = \<lparr> cp_start = 0, cp_end = 1 / 100000, heuristic_start = 0,
     heuristic_end = 2 / 100000 \<rparr>"

section \<open>Session expansion: length, order and identifiers\<close>

lemma expand_indices_eq:
  "expand_indices c is acc = acc @ map (make_session c) is"
  by (induction "is" arbitrary: acc) simp_all

lemma expand_loop_eq:
  "expand_loop cs acc =
     acc @ concat (map (\<lambda>c. map (make_session c) [1 ..< c_sessions_per_week c + 1]) cs)"
  by (induction cs arbitrary: acc) (simp_all add: expand_indices_eq)

lemma expand_course_sessions_eq:
  "expand_course_sessions cs =
     concat (map (\<lambda>c. map (make_session c) [1 ..< c_sessions_per_week c + 1]) cs)"
  by (simp add: expand_course_sessions_def expand_loop_eq)

lemma length_expand_course_sessions:
  "length (expand_course_sessions cs) = sum_list (map c_sessions_per_week cs)"
  by (induction cs) (simp_all add: expand_course_sessions_eq)

definition is_digit :: "char \<Rightarrow> bool" where
  "is_digit ch = (ch \<in> set ''0123456789'')"

lemma digit_char_cases:
  "d < 10 \<Longrightarrow> d \<in> {0, 1, 2, 3, 4, 5, 6, 7, 8, 9::nat}"
  by auto

lemma is_digit_digit_char: "d < 10 \<Longrightarrow> is_digit (digit_char d)"
  using digit_char_cases [of d] by (auto simp: is_digit_def digit_char_def)

lemma digit_char_inj: "a < 10 \<Longrightarrow> b < 10 \<Longrightarrow> digit_char a = digit_char b \<Longrightarrow> a = b"
  using digit_char_cases [of a] digit_char_cases [of b]
  by (auto simp: digit_char_def)

lemma str_nat_digits: "\<forall>ch \<in> set (str_nat n). is_digit ch"
proof (induction n rule: str_nat.induct)
  case (1 n)
  show ?case
  proof (cases "n < 10")
    case True
    then show ?thesis by (subst str_nat.simps) (simp add: is_digit_digit_char)
  next
    case False
    then show ?thesis using 1 by (subst str_nat.simps) (simp add: is_digit_digit_char)
  qed
qed

lemma str_nat_nonempty: "str_nat n \<noteq> []"
  by (subst str_nat.simps) simp

lemma str_nat_inj: "str_nat a = str_nat b \<Longrightarrow> a = b"
proof (induction a arbitrary: b rule: str_nat.induct)
  case (1 a)
  show ?case
  proof (cases "a < 10")
    case True
    have "b < 10"
    proof (rule ccontr)
      assume "\<not> b < 10"
      then have "str_nat b = str_nat (b div 10) @ [digit_char (b mod 10)]"
        by (subst str_nat.simps) simp
      moreover have "str_nat a = [digit_char a]" using True by (subst str_nat.simps) simp
      ultimately show False using "1.prems" str_nat_nonempty [of "b div 10"] by simp
    qed
    moreover have "str_nat a = [digit_char a]" using True by (subst str_nat.simps) simp
    moreover have "str_nat b = [digit_char b]" using \<open>b < 10\<close> by (subst str_nat.simps) simp
    ultimately show ?thesis using True "1.prems" digit_char_inj by simp
  next
    case False
    have sa: "str_nat a = str_nat (a div 10) @ [digit_char (a mod 10)]"
      using False by (subst str_nat.simps) simp
    have "\<not> b < 10"
    proof
      assume "b < 10"
      then have "str_nat b = [digit_char b]" by (subst str_nat.simps) simp
      then show False using sa "1.prems" str_nat_nonempty [of "a div 10"] by simp
    qed
    then have sb: "str_nat b = str_nat (b div 10) @ [digit_char (b mod 10)]"
      by (subst str_nat.simps) simp
    from sa sb "1.prems" have e1: "str_nat (a div 10) = str_nat (b div 10)"
      and e2: "digit_char (a mod 10) = digit_char (b mod 10)" by simp_all
    from "1.IH" [OF False e1] have "a div 10 = b div 10" .
    moreover from e2 have "a mod 10 = b mod 10" by (intro digit_char_inj) simp_all
    ultimately show ?thesis by (metis div_mult_mod_eq)
  qed
qed

lemma session_id_split:
  assumes "c1 @ ''::S'' @ str_nat i = c2 @ ''::S'' @ str_nat j"
  shows "c1 = c2 \<and> i = j"
proof -
  have tw: "takeWhile is_digit (rev (str_nat n) @ ''S::'' @ rev c) = rev (str_nat n)" for n c
    using str_nat_digits [of n] by (simp add: takeWhile_tail is_digit_def)
  from assms have "rev (c1 @ ''::S'' @ str_nat i) = rev (c2 @ ''::S'' @ str_nat j)" by simp
  then have r: "rev (str_nat i) @ ''S::'' @ rev c1 = rev (str_nat j) @ ''S::'' @ rev c2"
    by simp
  then have "takeWhile is_digit (rev (str_nat i) @ ''S::'' @ rev c1)
           = takeWhile is_digit (rev (str_nat j) @ ''S::'' @ rev c2)" by simp
  then have "rev (str_nat i) = rev (str_nat j)" by (simp only: tw)
  then have ij: "str_nat i = str_nat j" by simp
  with r have "c1 = c2" by simp
  with ij show ?thesis by (simp add: str_nat_inj)
qed

lemma session_id_make_session [simp]:
  "session_id (make_session c i) = c_id c @ ''::S'' @ str_nat i"
  by (simp add: make_session_def)

lemma s_course_id_make_session [simp]: "s_course_id (make_session c i) = c_id c"
  by (simp add: make_session_def)

lemma distinct_session_ids:
  assumes "distinct (map c_id cs)"
  shows "distinct (map session_id (expand_course_sessions cs))"
  using assms
proof (induction cs)
  case Nil
  then show ?case by (simp add: expand_course_sessions_eq)
next
  case (Cons c cs)
  let ?own = "map (make_session c) [1 ..< c_sessions_per_week c + 1]"
  have own: "distinct (map session_id ?own)"
  proof -
    have "inj_on (\<lambda>i. session_id (make_session c i)) (set [1 ..< c_sessions_per_week c + 1])"
    proof (rule inj_onI)
      fix x y
      assume "session_id (make_session c x) = session_id (make_session c y)"
      then have "str_nat x = str_nat y" by simp
      then show "x = y" by (rule str_nat_inj)
    qed
    then show ?thesis by (simp add: distinct_map o_def)
  qed
  have rest: "distinct (map session_id (expand_course_sessions cs))"
    using Cons by simp
  have disj: "set (map session_id ?own) \<inter> set (map session_id (expand_course_sessions cs)) = {}"
  proof (rule ccontr)
    assume "\<not> ?thesis"
    then obtain i c' j where "c' \<in> set cs"
      and "session_id (make_session c i) = session_id (make_session c' j)"
      by (auto simp: expand_course_sessions_eq)
    then have "c_id c @ ''::S'' @ str_nat i = c_id c' @ ''::S'' @ str_nat j"
      by (simp only: session_id_make_session)
    then have "c_id c = c_id c'" by (rule session_id_split [THEN conjunct1])
    with \<open>c' \<in> set cs\<close> Cons.prems show False by auto
  qed
  have "expand_course_sessions (c # cs) = ?own @ expand_course_sessions cs"
    by (simp add: expand_course_sessions_eq)
  then show ?case using own rest disj by simp
qed


text \<open>
  C3 (as stated in the specification): for every course list the expansion has
  \<open>\<Sum> sessions_per_week\<close> entries, in input order with ascending occurrence indices, and
  the session ids are pairwise distinct.  The last part fails when two courses carry the
  same id: nothing in the expansion (or in the input model) makes course ids unique.
\<close>

theorem expand_course_sessions_duplicate_ids:
  "\<not> distinct (map session_id (expand_course_sessions [course_a, course_a]))"
  by code_simp

text \<open>
  C3 (amended): for every course list the expansion has \<open>\<Sum> sessions_per_week\<close> entries
  and lists, for the courses in input order, the occurrences \<open>1 .. sessions_per_week\<close> in
  ascending order; the session ids are pairwise distinct whenever the course ids are.
\<close>

theorem expand_course_sessions_length_order_distinct:
  "length (expand_course_sessions cs) = sum_list (map c_sessions_per_week cs) \<and>
   expand_course_sessions cs =
     concat (map (\<lambda>c. map (make_session c) [1 ..< c_sessions_per_week c + 1]) cs) \<and>
   (distinct (map c_id cs) \<longrightarrow> distinct (map session_id (expand_course_sessions cs)))"
  using length_expand_course_sessions expand_course_sessions_eq distinct_session_ids
  by blast

theorem expand_course_sessions_witness:
  "distinct (map c_id [course_a, course_b]) \<and>
   length (expand_course_sessions [course_a, course_b]) = 3 \<and>
   map session_id (expand_course_sessions [course_a, course_b]) = [''A::S1'', ''A::S2'', ''B::S1''] \<and>
   distinct (map session_id (expand_course_sessions [course_a, course_b]))"
proof -
  have d: "distinct (map c_id [course_a, course_b])"
    by (simp add: course_a_def course_b_def)
  have m: "map session_id (expand_course_sessions [course_a, course_b])
             = [''A::S1'', ''A::S2'', ''B::S1'']"
    by code_simp
  from expand_course_sessions_length_order_distinct [of "[course_a, course_b]"] d
  have "distinct (map session_id (expand_course_sessions [course_a, course_b]))"
    and "length (expand_course_sessions [course_a, course_b])
           = sum_list (map c_sessions_per_week [course_a, course_b])" by blast+
  then show ?thesis using d m by (simp add: course_a_def course_b_def)
qed

section \<open>Properties of dictionaries and usage tables\<close>

lemma find_append_cases:
  "find P (xs @ ys) = (case find P xs of None \<Rightarrow> find P ys | Some x \<Rightarrow> Some x)"
  by (induction xs) simp_all

lemma find_SomeD: "find P xs = Some x \<Longrightarrow> x \<in> set xs \<and> P x"
  by (induction xs) (auto split: if_splits)

lemma find_None_conv: "find P xs = None \<longleftrightarrow> (\<forall>x \<in> set xs. \<not> P x)"
  by (induction xs) auto

lemma map_of_dict_by_foldl:
  "map_of (foldl (\<lambda>d x. AList.update (key x) x d) d0 xs) k
     = (case find (\<lambda>x. key x = k) (rev xs) of None \<Rightarrow> map_of d0 k | Some x \<Rightarrow> Some x)"
proof (induction xs arbitrary: d0)
  case Nil
  then show ?case by simp
next
  case (Cons x xs)
  show ?case
    by (simp add: Cons.IH find_append_cases update_conv' split: option.splits)
qed

lemma map_of_dict_by:
  "map_of (dict_by key xs) k = find (\<lambda>x. key x = k) (rev xs)"
  by (simp add: dict_by_def map_of_dict_by_foldl split: option.splits)

lemma map_of_dict_by_SomeD:
  "map_of (dict_by key xs) k = Some x \<Longrightarrow> x \<in> set xs \<and> key x = k"
  by (auto simp: map_of_dict_by dest: find_SomeD)

lemma map_of_dict_by_None:
  "map_of (dict_by key xs) k = None \<longleftrightarrow> k \<notin> key ` set xs"
  by (auto simp: map_of_dict_by find_None_conv)

lemma distinct_foldl_update:
  "distinct (map fst d0) \<Longrightarrow> distinct (map fst (foldl (\<lambda>d x. AList.update (key x) x d) d0 xs))"
  by (induction xs arbitrary: d0) (simp_all add: distinct_update)

lemma distinct_dict_by: "distinct (map fst (dict_by key xs))"
  by (simp add: dict_by_def distinct_foldl_update)

lemma set_fst_foldl_update:
  "fst ` set (foldl (\<lambda>d x. AList.update (key x) x d) d0 xs) = fst ` set d0 \<union> key ` set xs"
proof (induction xs arbitrary: d0)
  case Nil
  then show ?case by simp
next
  case (Cons x xs)
  have "fst ` set (AList.update (key x) x d0) = insert (key x) (fst ` set d0)"
    by (simp add: dom_map_of_conv_image_fst [symmetric] update_conv')
  then show ?case by (simp add: Cons.IH)
qed

lemma keys_dict_by: "set (map fst (dict_by key xs)) = key ` set xs"
  using set_fst_foldl_update [of key "[]" xs] by (simp add: dict_by_def)

lemma distinct_usage_append:
  "distinct (map fst u) \<Longrightarrow> distinct (map fst (usage_append u k v))"
  by (auto simp: usage_append_def distinct_update split: option.splits
      dest: map_of_eq_None_iff [THEN iffD1])

lemma map_of_usage_append:
  "map_of (usage_append u k v)
     = (map_of u)(k \<mapsto> (case map_of u k of None \<Rightarrow> [v] | Some l \<Rightarrow> l @ [v]))"
  by (auto simp: usage_append_def update_conv' fun_eq_iff map_add_def split: option.splits)

lemma distinct_usage_of:
  "distinct (map fst u) \<Longrightarrow> distinct (map fst (usage_of key u as))"
  unfolding usage_of_def
  by (induction as arbitrary: u) (simp_all add: distinct_usage_append)

lemma map_of_usage_of:
  "map_of (usage_of key u as) k =
     (case map_of u k of
        None \<Rightarrow> (if filter (\<lambda>a. key a = k) as = [] then None
                 else Some (map a_session_id (filter (\<lambda>a. key a = k) as)))
      | Some l \<Rightarrow> Some (l @ map a_session_id (filter (\<lambda>a. key a = k) as)))"
  unfolding usage_of_def
proof (induction as arbitrary: u)
  case Nil
  then show ?case by (simp split: option.splits)
next
  case (Cons a as)
  show ?case
    by (simp add: Cons.IH map_of_usage_append split: option.splits)
qed

lemma usage_of_entry:
  assumes "(k, l) \<in> set (usage_of key [] as)"
  shows "l = map a_session_id (filter (\<lambda>a. key a = k) as) \<and> l \<noteq> []"
proof -
  have "distinct (map fst (usage_of key [] as))" by (simp add: distinct_usage_of)
  with assms have "map_of (usage_of key [] as) k = Some l" by simp
  then show ?thesis by (auto simp: map_of_usage_of split: if_splits)
qed

section \<open>The validation loop\<close>

lemma validate_record_issues:
  "vs_issues (validate_record ctx st a) = vs_issues st @ record_issues ctx (vs_seen_sessions st) a"
  by (simp add: validate_record_def record_issues_def vstate_init_def split: option.splits)

lemma validate_record_seen:
  "vs_seen_sessions (validate_record ctx st a) =
     (if map_of (session_by_id ctx) (a_session_id a) = None \<or> a_session_id a \<in> vs_seen_sessions st
      then vs_seen_sessions st else insert (a_session_id a) (vs_seen_sessions st))"
  by (auto simp: validate_record_def split: option.splits)

lemma validate_record_room_usage:
  "vs_room_slot_usage (validate_record ctx st a) =
     (if map_of (session_by_id ctx) (a_session_id a) = None \<or> a_session_id a \<in> vs_seen_sessions st
      then vs_room_slot_usage st
      else usage_append (vs_room_slot_usage st) (room_key a) (a_session_id a))"
  by (auto simp: validate_record_def room_key_def split: option.splits)

lemma validate_record_instructor_usage:
  "vs_instructor_slot_usage (validate_record ctx st a) =
     (if map_of (session_by_id ctx) (a_session_id a) = None \<or> a_session_id a \<in> vs_seen_sessions st
      then vs_instructor_slot_usage st
      else usage_append (vs_instructor_slot_usage st) (instructor_key a) (a_session_id a))"
  by (auto simp: validate_record_def instructor_key_def split: option.splits)

lemma loop_seen:
  "vs_seen_sessions (foldl (validate_record ctx) st as)
     = vs_seen_sessions st \<union> a_session_id ` set (kept_records ctx (vs_seen_sessions st) as)"
  by (induction as arbitrary: st) (auto simp: validate_record_seen)

lemma loop_room_usage:
  "vs_room_slot_usage (foldl (validate_record ctx) st as)
     = usage_of room_key (vs_room_slot_usage st) (kept_records ctx (vs_seen_sessions st) as)"
  by (induction as arbitrary: st)
     (simp_all add: validate_record_seen validate_record_room_usage usage_of_def)

lemma loop_instructor_usage:
  "vs_instructor_slot_usage (foldl (validate_record ctx) st as)
     = usage_of instructor_key (vs_instructor_slot_usage st)
         (kept_records ctx (vs_seen_sessions st) as)"
  by (induction as arbitrary: st)
     (simp_all add: validate_record_seen validate_record_instructor_usage usage_of_def)

lemma kept_records_subset: "set (kept_records ctx seen as) \<subseteq> set as"
  by (induction as arbitrary: seen) auto

lemma kept_records_known:
  "a \<in> set (kept_records ctx seen as) \<Longrightarrow> map_of (session_by_id ctx) (a_session_id a) \<noteq> None"
  by (induction as arbitrary: seen) (auto split: if_splits)

lemma kept_records_fresh:
  "a \<in> set (kept_records ctx seen as) \<Longrightarrow> a_session_id a \<notin> seen"
  by (induction as arbitrary: seen) (auto split: if_splits)

lemma kept_records_distinct: "distinct (map a_session_id (kept_records ctx seen as))"
proof (induction as arbitrary: seen)
  case Nil
  then show ?case by simp
next
  case (Cons a as)
  have "a_session_id a \<notin> a_session_id ` set (kept_records ctx (insert (a_session_id a) seen) as)"
    using kept_records_fresh by fastforce
  then show ?case using Cons.IH by simp
qed

lemma kept_records_idem_aux:
  assumes "\<forall>a \<in> set as. map_of (session_by_id ctx) (a_session_id a) \<noteq> None"
    and "distinct (map a_session_id as)" and "a_session_id ` set as \<inter> seen = {}"
  shows "kept_records ctx seen as = as"
  using assms
proof (induction as arbitrary: seen)
  case Nil
  then show ?case by simp
next
  case (Cons a as)
  have "kept_records ctx (insert (a_session_id a) seen) as = as"
    using Cons.prems by (intro Cons.IH) auto
  then show ?case using Cons.prems by auto
qed

lemma kept_records_idem:
  "kept_records ctx {} (kept_records ctx seen as) = kept_records ctx seen as"
  by (rule kept_records_idem_aux)
     (auto simp: kept_records_distinct dest: kept_records_known)

section \<open>Issues raised by the validation loop\<close>

lemma mismatch_checks_codes:
  "i \<in> set (mismatch_checks session a) \<Longrightarrow> code i = COURSE_MISMATCH \<or> code i = INSTRUCTOR_MISMATCH"
  by (auto simp: mismatch_checks_def mk_issue_def split: if_splits)

lemma room_checks_codes:
  "i \<in> set (room_checks ctx session a) \<Longrightarrow>
     code i = UNKNOWN_ROOM \<or> code i = ROOM_CAPACITY_VIOLATION \<or> code i = ROOM_FEATURE_VIOLATION"
  by (auto simp: room_checks_def mk_issue_def split: option.splits if_splits)

lemma slot_checks_codes:
  "i \<in> set (slot_checks ctx session a) \<Longrightarrow>
     code i = UNKNOWN_TIME_SLOT \<or> code i = UNKNOWN_INSTRUCTOR
     \<or> code i = INSTRUCTOR_AVAILABILITY_VIOLATION \<or> code i = COURSE_TIME_WINDOW_VIOLATION"
  by (auto simp: slot_checks_def mk_issue_def split: option.splits if_splits)

lemma record_issues_cases:
  "record_issues ctx seen a =
     (case map_of (session_by_id ctx) (a_session_id a) of
        None \<Rightarrow> [mk_issue UNKNOWN_SESSION
                   (''Session '' @ [CHR 0x27] @ a_session_id a @ [CHR 0x27]
                      @ '' does not exist in input.'')
                   [(''session_id'', DStr (a_session_id a))]]
      | Some session \<Rightarrow>
          if a_session_id a \<in> seen then
            [mk_issue DUPLICATE_SESSION_ASSIGNMENT
               (''Session '' @ [CHR 0x27] @ a_session_id a @ [CHR 0x27]
                  @ '' is assigned more than once.'')
               [(''session_id'', DStr (a_session_id a))]]
          else mismatch_checks session a @ room_checks ctx session a @ slot_checks ctx session a)"
  by (simp add: record_issues_def validate_record_def vstate_init_def split: option.splits)

lemma record_issues_no_conflict: "filter is_conflict (record_issues ctx seen a) = []"
  by (auto simp: record_issues_cases filter_empty_conv is_conflict_def mk_issue_def
      split: option.splits
      dest: mismatch_checks_codes room_checks_codes slot_checks_codes)

lemma loop_no_conflict:
  "filter is_conflict (vs_issues (foldl (validate_record ctx) st as))
     = filter is_conflict (vs_issues st)"
  by (induction as arbitrary: st)
     (simp_all add: validate_record_issues record_issues_no_conflict)

lemma loop_issues_mono:
  "set (vs_issues st) \<subseteq> set (vs_issues (foldl (validate_record ctx) st as))"
proof (induction as arbitrary: st)
  case Nil
  then show ?case by simp
next
  case (Cons a as)
  have "set (vs_issues st) \<subseteq> set (vs_issues (validate_record ctx st a))"
    by (simp add: validate_record_issues)
  also have "\<dots> \<subseteq> set (vs_issues (foldl (validate_record ctx) (validate_record ctx st a) as))"
    by (rule Cons.IH)
  finally show ?case by simp
qed

lemma loop_issues_of_kept:
  assumes "a \<in> set (kept_records ctx (vs_seen_sessions st) as)"
    and "map_of (session_by_id ctx) (a_session_id a) = Some session"
  shows "set (mismatch_checks session a @ room_checks ctx session a @ slot_checks ctx session a)
           \<subseteq> set (vs_issues (foldl (validate_record ctx) st as))"
  using assms
proof (induction as arbitrary: st)
  case Nil
  then show ?case by simp
next
  case (Cons b as)
  let ?st' = "validate_record ctx st b"
  show ?case
  proof (cases "map_of (session_by_id ctx) (a_session_id b) = None
                  \<or> a_session_id b \<in> vs_seen_sessions st")
    case True
    then have "a \<in> set (kept_records ctx (vs_seen_sessions ?st') as)"
      using Cons.prems(1) by (simp add: validate_record_seen)
    from Cons.IH [OF this Cons.prems(2)] show ?thesis by simp
  next
    case False
    show ?thesis
    proof (cases "a = b")
      case True
      then have "set (mismatch_checks session a @ room_checks ctx session a
                        @ slot_checks ctx session a) \<subseteq> set (vs_issues ?st')"
        using False Cons.prems(2)
        by (simp add: validate_record_issues record_issues_cases)
      also have "\<dots> \<subseteq> set (vs_issues (foldl (validate_record ctx) ?st' as))"
        by (rule loop_issues_mono)
      finally show ?thesis by simp
    next
      case neq: False
      then have "a \<in> set (kept_records ctx (vs_seen_sessions ?st') as)"
        using False Cons.prems(1) by (auto simp: validate_record_seen)
      from Cons.IH [OF this Cons.prems(2)] show ?thesis by simp
    qed
  qed
qed

lemma loop_issues_origin:
  assumes "i \<in> set (vs_issues (foldl (validate_record ctx) st as))"
  shows "i \<in> set (vs_issues st)
       \<or> code i = UNKNOWN_SESSION \<or> code i = DUPLICATE_SESSION_ASSIGNMENT
       \<or> (\<exists>a \<in> set (kept_records ctx (vs_seen_sessions st) as). \<exists>session.
             map_of (session_by_id ctx) (a_session_id a) = Some session
           \<and> i \<in> set (mismatch_checks session a @ room_checks ctx session a
                          @ slot_checks ctx session a))"
  using assms
proof (induction as arbitrary: st)
  case Nil
  then show ?case by simp
next
  case (Cons b as)
  let ?st' = "validate_record ctx st b"
  from Cons.IH [of ?st'] Cons.prems
  consider (old) "i \<in> set (vs_issues ?st')"
    | (flag) "code i = UNKNOWN_SESSION \<or> code i = DUPLICATE_SESSION_ASSIGNMENT"
    | (later) a session where "a \<in> set (kept_records ctx (vs_seen_sessions ?st') as)"
        "map_of (session_by_id ctx) (a_session_id a) = Some session"
        "i \<in> set (mismatch_checks session a @ room_checks ctx session a
                     @ slot_checks ctx session a)"
    by auto
  then show ?case
  proof cases
    case old
    then show ?thesis
      by (auto simp: validate_record_issues record_issues_cases mk_issue_def
          split: option.splits if_splits)
  next
    case flag
    then show ?thesis by blast
  next
    case later
    then have "a \<in> set (kept_records ctx (vs_seen_sessions st) (b # as))"
      by (auto simp: validate_record_seen split: if_splits)
    with later show ?thesis by blast
  qed
qed

section \<open>The report of \<open>validate_schedule\<close>\<close>

lemma validate_schedule_issues:
  "issues (validate_schedule data as) =
     (let ctx = mk_vctx data; st = foldl (validate_record ctx) vstate_init as
      in vs_issues st
         @ conflict_issues room_conflict_issue
             (usage_of room_key [] (kept_records ctx {} as))
         @ conflict_issues instructor_conflict_issue
             (usage_of instructor_key [] (kept_records ctx {} as))
         @ map missing_issue
             (sort (filter (\<lambda>sid. sid \<notin> a_session_id ` set (kept_records ctx {} as))
                (map fst (session_by_id ctx)))))"
  by (simp add: validate_schedule_def Let_def loop_room_usage loop_instructor_usage loop_seen
      vstate_init_def)

lemma conflict_issues_are_conflicts:
  "filter is_conflict (conflict_issues room_conflict_issue u) = conflict_issues room_conflict_issue u"
  "filter is_conflict (conflict_issues instructor_conflict_issue u)
     = conflict_issues instructor_conflict_issue u"
  by (auto simp: conflict_issues_def is_conflict_def room_conflict_issue_def
      instructor_conflict_issue_def mk_issue_def filter_id_conv split: prod.splits)

lemma missing_issues_no_conflict: "filter is_conflict (map missing_issue sids) = []"
  by (simp add: filter_empty_conv is_conflict_def missing_issue_def mk_issue_def)

lemma validate_schedule_conflicts:
  "filter is_conflict (issues (validate_schedule data as)) =
     conflict_issues room_conflict_issue
       (usage_of room_key [] (kept_records (mk_vctx data) {} as))
     @ conflict_issues instructor_conflict_issue
         (usage_of instructor_key [] (kept_records (mk_vctx data) {} as))"
  by (simp add: validate_schedule_issues Let_def loop_no_conflict conflict_issues_are_conflicts
      missing_issues_no_conflict vstate_init_def)

lemma conflict_issue_session_ids:
  assumes "i \<in> set (conflict_issues mk (usage_of key [] as))"
    and mk: "\<And>e. map_of (details (mk e)) ''session_ids'' = Some (DList (snd e))"
  shows "\<exists>k. map_of (details i) ''session_ids''
              = Some (DList (map a_session_id (filter (\<lambda>a. key a = k) as)))
           \<and> 1 < length (filter (\<lambda>a. key a = k) as)"
proof -
  from assms(1) obtain k l where e: "(k, l) \<in> set (usage_of key [] as)"
    and i: "i = mk (k, l)" and len: "1 < length l"
    by (auto simp: conflict_issues_def)
  from usage_of_entry [OF e] have l: "l = map a_session_id (filter (\<lambda>a. key a = k) as)" by simp
  with i mk [of "(k, l)"] len show ?thesis by (intro exI [of _ k]) simp
qed

lemma room_conflict_issue_details:
  "map_of (details (room_conflict_issue e)) ''session_ids'' = Some (DList (snd e))"
  by (simp add: room_conflict_issue_def mk_issue_def split: prod.splits)

lemma instructor_conflict_issue_details:
  "map_of (details (instructor_conflict_issue e)) ''session_ids'' = Some (DList (snd e))"
  by (simp add: instructor_conflict_issue_def mk_issue_def split: prod.splits)

lemma conflict_issues_code:
  "i \<in> set (conflict_issues room_conflict_issue u) \<Longrightarrow> code i = ROOM_TIME_CONFLICT"
  "i \<in> set (conflict_issues instructor_conflict_issue u) \<Longrightarrow> code i = INSTRUCTOR_TIME_CONFLICT"
  by (auto simp: conflict_issues_def room_conflict_issue_def instructor_conflict_issue_def
      mk_issue_def split: prod.splits)

section \<open>Unknown instructors\<close>

lemma unknown_instructor_in_slot_checks:
  "(\<exists>i \<in> set (slot_checks ctx session a).
       code i = UNKNOWN_INSTRUCTOR \<and> details i = [(''instructor_id'', DStr iid)])
   \<longleftrightarrow> map_of (slot_by_id ctx) (a_time_slot_id a) \<noteq> None
       \<and> map_of (instructor_by_id ctx) (s_instructor_id session) = None
       \<and> s_instructor_id session = iid"
  by (auto simp: slot_checks_def mk_issue_def split: option.splits)

lemma validate_schedule_issue_origin:
  assumes "i \<in> set (issues (validate_schedule data as))"
  shows "code i = UNKNOWN_SESSION \<or> code i = DUPLICATE_SESSION_ASSIGNMENT
       \<or> code i = ROOM_TIME_CONFLICT \<or> code i = INSTRUCTOR_TIME_CONFLICT
       \<or> code i = MISSING_SESSION_ASSIGNMENT
       \<or> (\<exists>a \<in> set (kept_records (mk_vctx data) {} as). \<exists>session.
             map_of (session_by_id (mk_vctx data)) (a_session_id a) = Some session
           \<and> i \<in> set (mismatch_checks session a @ room_checks (mk_vctx data) session a
                          @ slot_checks (mk_vctx data) session a))"
proof -
  let ?ctx = "mk_vctx data"
  from assms consider
      (loop) "i \<in> set (vs_issues (foldl (validate_record ?ctx) vstate_init as))"
    | (room) "i \<in> set (conflict_issues room_conflict_issue
                          (usage_of room_key [] (kept_records ?ctx {} as)))"
    | (instr) "i \<in> set (conflict_issues instructor_conflict_issue
                           (usage_of instructor_key [] (kept_records ?ctx {} as)))"
    | (missing) "code i = MISSING_SESSION_ASSIGNMENT"
    by (auto simp: validate_schedule_issues Let_def missing_issue_def mk_issue_def)
  then show ?thesis
  proof cases
    case loop
    from loop_issues_origin [OF loop] show ?thesis by (auto simp: vstate_init_def)
  next
    case room
    then show ?thesis by (simp add: conflict_issues_code)
  next
    case instr
    then show ?thesis by (simp add: conflict_issues_code)
  next
    case missing
    then show ?thesis by simp
  qed
qed

lemma validate_schedule_issues_of_kept:
  assumes "a \<in> set (kept_records (mk_vctx data) {} as)"
    and "map_of (session_by_id (mk_vctx data)) (a_session_id a) = Some session"
  shows "set (mismatch_checks session a @ room_checks (mk_vctx data) session a
                @ slot_checks (mk_vctx data) session a)
           \<subseteq> set (issues (validate_schedule data as))"
proof -
  have "a \<in> set (kept_records (mk_vctx data) (vs_seen_sessions vstate_init) as)"
    using assms(1) by (simp add: vstate_init_def)
  from loop_issues_of_kept [OF this assms(2)] show ?thesis
    by (auto simp: validate_schedule_issues Let_def)
qed

section \<open>The per-record pass, record by record\<close>

lemma kept_records_ids:
  "a_session_id ` set (kept_records ctx seen as)
     = {s \<in> a_session_id ` set as. map_of (session_by_id ctx) s \<noteq> None \<and> s \<notin> seen}"
proof (induction as arbitrary: seen)
  case Nil
  then show ?case by simp
next
  case (Cons a as)
  show ?case
  proof (cases "map_of (session_by_id ctx) (a_session_id a) = None \<or> a_session_id a \<in> seen")
    case True
    then show ?thesis using Cons.IH [of seen] by auto
  next
    case False
    then show ?thesis using Cons.IH [of "insert (a_session_id a) seen"] by auto
  qed
qed

lemma kept_records_append:
  "kept_records ctx seen (xs @ ys)
     = kept_records ctx seen xs
       @ kept_records ctx (seen \<union> a_session_id ` set (kept_records ctx seen xs)) ys"
proof (induction xs arbitrary: seen)
  case Nil
  then show ?case by simp
next
  case (Cons x xs)
  show ?case
  proof (cases "map_of (session_by_id ctx) (a_session_id x) = None \<or> a_session_id x \<in> seen")
    case True
    then show ?thesis using Cons.IH [of seen] by auto
  next
    case False
    then have step: "kept_records ctx seen (x # zs)
                       = x # kept_records ctx (insert (a_session_id x) seen) zs" for zs
      by auto
    have u: "seen \<union> a_session_id ` set (x # kept_records ctx (insert (a_session_id x) seen) xs)
          = insert (a_session_id x) seen
            \<union> a_session_id ` set (kept_records ctx (insert (a_session_id x) seen) xs)"
      by auto
    have "kept_records ctx seen ((x # xs) @ ys)
            = x # kept_records ctx (insert (a_session_id x) seen) (xs @ ys)"
      using step [of "xs @ ys"] by simp
    also have "\<dots> = x # (kept_records ctx (insert (a_session_id x) seen) xs
            @ kept_records ctx (insert (a_session_id x) seen
                \<union> a_session_id ` set (kept_records ctx (insert (a_session_id x) seen) xs)) ys)"
      by (simp only: Cons.IH [of "insert (a_session_id x) seen"])
    also have "\<dots> = kept_records ctx seen (x # xs)
            @ kept_records ctx (seen \<union> a_session_id ` set (kept_records ctx seen (x # xs))) ys"
      by (simp only: step u append_Cons)
    finally show ?thesis .
  qed
qed

lemma seen_known_iff:
  assumes "map_of (session_by_id ctx) (a_session_id a) \<noteq> None"
  shows "a_session_id a \<in> a_session_id ` set (kept_records ctx {} as)
           \<longleftrightarrow> a_session_id a \<in> a_session_id ` set as"
  using assms by (auto simp: kept_records_ids)

lemma record_report_last:
  "record_report data (as @ [a]) (length as)
     = record_issues (mk_vctx data) (a_session_id ` set (kept_records (mk_vctx data) {} as)) a"
proof (cases "map_of (session_by_id (mk_vctx data)) (a_session_id a)")
  case None
  then show ?thesis
    by (simp add: record_report_def record_issues_cases unknown_session_issue_def)
next
  case (Some session)
  then have "map_of (session_by_id (mk_vctx data)) (a_session_id a) \<noteq> None" by simp
  from seen_known_iff [OF this, of as] Some show ?thesis
    by (simp add: record_report_def record_issues_cases duplicate_session_issue_def)
qed

lemma record_report_prefix:
  "k < length as \<Longrightarrow> record_report data (as @ bs) k = record_report data as k"
  by (auto simp: record_report_def nth_append split: option.splits)

lemma per_record_pass:
  "vs_issues (foldl (validate_record (mk_vctx data)) vstate_init as)
     = concat (map (record_report data as) [0 ..< length as])"
proof (induction as rule: rev_induct)
  case Nil
  then show ?case by (simp add: vstate_init_def)
next
  case (snoc a as)
  have seen: "vs_seen_sessions (foldl (validate_record (mk_vctx data)) vstate_init as)
                = a_session_id ` set (kept_records (mk_vctx data) {} as)"
    by (simp add: loop_seen vstate_init_def)
  have pre: "map (record_report data (as @ [a])) [0 ..< length as]
               = map (record_report data as) [0 ..< length as]"
    by (rule map_cong) (simp_all add: record_report_prefix)
  show ?case
    by (simp add: validate_record_issues seen snoc.IH pre record_report_last)
qed

lemma flagged_prefix:
  "k < length as \<Longrightarrow> flagged_unknown data (as @ bs) k = flagged_unknown data as k"
  "k < length as \<Longrightarrow> flagged_duplicate data (as @ bs) k = flagged_duplicate data as k"
  by (simp_all add: flagged_unknown_def flagged_duplicate_def nth_append)

lemma unflagged_records_snoc:
  "unflagged_records data (as @ [a])
     = unflagged_records data as
       @ (if map_of (session_by_id (mk_vctx data)) (a_session_id a) = None
             \<or> a_session_id a \<in> a_session_id ` set as then [] else [a])"
proof -
  have f: "filter (\<lambda>k. \<not> flagged_unknown data (as @ [a]) k \<and> \<not> flagged_duplicate data (as @ [a]) k)
             [0 ..< length as]
         = filter (\<lambda>k. \<not> flagged_unknown data as k \<and> \<not> flagged_duplicate data as k)
             [0 ..< length as]"
    by (rule filter_cong) (simp_all add: flagged_prefix)
  have m: "map ((!) (as @ [a])) (filter P [0 ..< length as])
             = map ((!) as) (filter P [0 ..< length as])" for P
    by (rule map_cong) (simp_all add: nth_append)
  show ?thesis
    by (simp add: unflagged_records_def f m)
       (auto simp: flagged_unknown_def flagged_duplicate_def)
qed

lemma kept_records_unflagged:
  "kept_records (mk_vctx data) {} as = unflagged_records data as"
proof (induction as rule: rev_induct)
  case Nil
  then show ?case by (simp add: unflagged_records_def)
next
  case (snoc a as)
  have "kept_records (mk_vctx data) {} (as @ [a])
          = kept_records (mk_vctx data) {} as
            @ (if map_of (session_by_id (mk_vctx data)) (a_session_id a) = None
                  \<or> a_session_id a \<in> a_session_id ` set (kept_records (mk_vctx data) {} as)
               then [] else [a])"
    by (simp add: kept_records_append)
  also have "\<dots> = kept_records (mk_vctx data) {} as
            @ (if map_of (session_by_id (mk_vctx data)) (a_session_id a) = None
                  \<or> a_session_id a \<in> a_session_id ` set as then [] else [a])"
    using seen_known_iff [of "mk_vctx data" a as] by auto
  finally show ?case by (simp add: snoc.IH unflagged_records_snoc)
qed

section \<open>Unknown instructors and unknown time slots\<close>

lemma filter_code_empty:
  "(\<And>i. i \<in> set xs \<Longrightarrow> code i \<noteq> c) \<Longrightarrow> filter (\<lambda>i. code i = c) xs = []"
  by (simp add: filter_empty_conv)

lemma filter_code_mismatch_checks:
  "c \<noteq> COURSE_MISMATCH \<Longrightarrow> c \<noteq> INSTRUCTOR_MISMATCH \<Longrightarrow>
     filter (\<lambda>i. code i = c) (mismatch_checks session a) = []"
  by (rule filter_code_empty) (auto dest: mismatch_checks_codes)

lemma filter_code_room_checks:
  "c \<noteq> UNKNOWN_ROOM \<Longrightarrow> c \<noteq> ROOM_CAPACITY_VIOLATION \<Longrightarrow> c \<noteq> ROOM_FEATURE_VIOLATION \<Longrightarrow>
     filter (\<lambda>i. code i = c) (room_checks ctx session a) = []"
  by (rule filter_code_empty) (auto dest: room_checks_codes)

lemma filter_code_conflict_issues:
  "c \<noteq> ROOM_TIME_CONFLICT \<Longrightarrow>
     filter (\<lambda>i. code i = c) (conflict_issues room_conflict_issue u) = []"
  "c \<noteq> INSTRUCTOR_TIME_CONFLICT \<Longrightarrow>
     filter (\<lambda>i. code i = c) (conflict_issues instructor_conflict_issue u) = []"
  by (rule filter_code_empty, auto dest: conflict_issues_code)+

lemma filter_code_missing:
  "c \<noteq> MISSING_SESSION_ASSIGNMENT \<Longrightarrow> filter (\<lambda>i. code i = c) (map missing_issue sids) = []"
  by (rule filter_code_empty) (auto simp: missing_issue_def mk_issue_def)

lemma filter_unknown_instructor_slot_checks:
  "filter (\<lambda>i. code i = UNKNOWN_INSTRUCTOR) (slot_checks ctx session a)
     = (if map_of (slot_by_id ctx) (a_time_slot_id a) \<noteq> None
           \<and> map_of (instructor_by_id ctx) (s_instructor_id session) = None
        then [unknown_instructor_issue (s_instructor_id session)] else [])"
  by (auto simp: slot_checks_def unknown_instructor_issue_def mk_issue_def split: option.splits)

lemma filter_unknown_time_slot_slot_checks:
  "filter (\<lambda>i. code i = UNKNOWN_TIME_SLOT) (slot_checks ctx session a)
     = (if map_of (slot_by_id ctx) (a_time_slot_id a) = None
        then [unknown_time_slot_issue (a_time_slot_id a)] else [])"
  by (auto simp: slot_checks_def unknown_time_slot_issue_def mk_issue_def split: option.splits)

lemma filter_code_per_record_pass:
  assumes "c \<noteq> ROOM_TIME_CONFLICT" "c \<noteq> INSTRUCTOR_TIME_CONFLICT"
    "c \<noteq> MISSING_SESSION_ASSIGNMENT"
  shows "filter (\<lambda>i. code i = c) (issues (validate_schedule data as))
     = concat (map (\<lambda>k. filter (\<lambda>i. code i = c) (record_report data as k)) [0 ..< length as])"
  using assms
  by (simp add: validate_schedule_issues Let_def per_record_pass filter_concat o_def
      filter_code_conflict_issues filter_code_missing)

text \<open>
  C6 (as stated): a record whose session exists and is no duplicate gets an
  \<open>UNKNOWN_INSTRUCTOR\<close> issue when the session's instructor does not exist, also when the
  record's time slot does not exist.  The instructor is only looked up in the branch where
  the slot exists: below, session \<open>A::S1\<close> exists, its instructor \<open>I1\<close> does not, the slot
  \<open>T9\<close> does not, and the report has no \<open>UNKNOWN_INSTRUCTOR\<close> issue.
\<close>

theorem unknown_instructor_not_reported_for_unknown_slot:
  "map code (issues (validate_schedule no_instructor_input
       [assign ''A::S1'' ''A'' ''I1'' ''R1'' ''T9'']))
     = [UNKNOWN_TIME_SLOT, MISSING_SESSION_ASSIGNMENT, MISSING_SESSION_ASSIGNMENT]
   \<and> map_of (session_by_id (mk_vctx no_instructor_input)) ''A::S1''
       = Some (make_session course_a 1)
   \<and> map_of (instructor_by_id (mk_vctx no_instructor_input)) ''I1'' = None
   \<and> map_of (slot_by_id (mk_vctx no_instructor_input)) ''T9'' = None"
  by code_simp

text \<open>
  C6 (amended): for every assignment record whose session exists and is not a duplicate,
  \<open>validate_schedule\<close> looks at the session's instructor only when the record's time slot
  exists: then it reports one \<open>UNKNOWN_INSTRUCTOR\<close> issue for the record when the
  instructor does not exist; when the time slot does not exist it reports one
  \<open>UNKNOWN_TIME_SLOT\<close> issue for the record and no \<open>UNKNOWN_INSTRUCTOR\<close> issue, whether
  the instructor exists or not.  Records of unknown or duplicated sessions get neither.
  So the \<open>UNKNOWN_INSTRUCTOR\<close> issues of a report are, in record order, one for each
  non-duplicate record of an existing session whose slot exists and whose instructor is
  missing, and its \<open>UNKNOWN_TIME_SLOT\<close> issues one for each such record whose slot is
  missing.
\<close>

theorem unknown_instructor_needs_known_slot:
  "filter (\<lambda>i. code i = UNKNOWN_INSTRUCTOR) (issues (validate_schedule data as)) =
     concat (map (\<lambda>k.
         case map_of (session_by_id (mk_vctx data)) (a_session_id (as ! k)) of
           None \<Rightarrow> []
         | Some session \<Rightarrow>
             if a_session_id (as ! k) \<in> a_session_id ` set (take k as) then []
             else if map_of (slot_by_id (mk_vctx data)) (a_time_slot_id (as ! k)) \<noteq> None
                     \<and> map_of (instructor_by_id (mk_vctx data)) (s_instructor_id session) = None
                  then [unknown_instructor_issue (s_instructor_id session)]
                  else [])
       [0 ..< length as])
   \<and> filter (\<lambda>i. code i = UNKNOWN_TIME_SLOT) (issues (validate_schedule data as)) =
     concat (map (\<lambda>k.
         case map_of (session_by_id (mk_vctx data)) (a_session_id (as ! k)) of
           None \<Rightarrow> []
         | Some session \<Rightarrow>
             if a_session_id (as ! k) \<in> a_session_id ` set (take k as) then []
             else if map_of (slot_by_id (mk_vctx data)) (a_time_slot_id (as ! k)) = None
                  then [unknown_time_slot_issue (a_time_slot_id (as ! k))]
                  else [])
       [0 ..< length as])"
proof
  have "filter (\<lambda>i. code i = UNKNOWN_INSTRUCTOR) (record_report data as k) =
         (case map_of (session_by_id (mk_vctx data)) (a_session_id (as ! k)) of
           None \<Rightarrow> []
         | Some session \<Rightarrow>
             if a_session_id (as ! k) \<in> a_session_id ` set (take k as) then []
             else if map_of (slot_by_id (mk_vctx data)) (a_time_slot_id (as ! k)) \<noteq> None
                     \<and> map_of (instructor_by_id (mk_vctx data)) (s_instructor_id session) = None
                  then [unknown_instructor_issue (s_instructor_id session)]
                  else [])" for k
    by (simp add: record_report_def unknown_session_issue_def duplicate_session_issue_def
        mk_issue_def filter_code_mismatch_checks filter_code_room_checks
        filter_unknown_instructor_slot_checks split: option.splits)
  then show "filter (\<lambda>i. code i = UNKNOWN_INSTRUCTOR) (issues (validate_schedule data as)) =
     concat (map (\<lambda>k.
         case map_of (session_by_id (mk_vctx data)) (a_session_id (as ! k)) of
           None \<Rightarrow> []
         | Some session \<Rightarrow>
             if a_session_id (as ! k) \<in> a_session_id ` set (take k as) then []
             else if map_of (slot_by_id (mk_vctx data)) (a_time_slot_id (as ! k)) \<noteq> None
                     \<and> map_of (instructor_by_id (mk_vctx data)) (s_instructor_id session) = None
                  then [unknown_instructor_issue (s_instructor_id session)]
                  else [])
       [0 ..< length as])"
    by (simp add: filter_code_per_record_pass)
next
  have "filter (\<lambda>i. code i = UNKNOWN_TIME_SLOT) (record_report data as k) =
         (case map_of (session_by_id (mk_vctx data)) (a_session_id (as ! k)) of
           None \<Rightarrow> []
         | Some session \<Rightarrow>
             if a_session_id (as ! k) \<in> a_session_id ` set (take k as) then []
             else if map_of (slot_by_id (mk_vctx data)) (a_time_slot_id (as ! k)) = None
                  then [unknown_time_slot_issue (a_time_slot_id (as ! k))]
                  else [])" for k
    by (simp add: record_report_def unknown_session_issue_def duplicate_session_issue_def
        mk_issue_def filter_code_mismatch_checks filter_code_room_checks
        filter_unknown_time_slot_slot_checks split: option.splits)
  then show "filter (\<lambda>i. code i = UNKNOWN_TIME_SLOT) (issues (validate_schedule data as)) =
     concat (map (\<lambda>k.
         case map_of (session_by_id (mk_vctx data)) (a_session_id (as ! k)) of
           None \<Rightarrow> []
         | Some session \<Rightarrow>
             if a_session_id (as ! k) \<in> a_session_id ` set (take k as) then []
             else if map_of (slot_by_id (mk_vctx data)) (a_time_slot_id (as ! k)) = None
                  then [unknown_time_slot_issue (a_time_slot_id (as ! k))]
                  else [])
       [0 ..< length as])"
    by (simp add: filter_code_per_record_pass)
qed

theorem unknown_instructor_needs_known_slot_witness:
  "filter (\<lambda>i. code i = UNKNOWN_INSTRUCTOR) (issues (validate_schedule no_instructor_input mixed_slots))
     = [unknown_instructor_issue ''I1'', unknown_instructor_issue ''I1'']
   \<and> filter (\<lambda>i. code i = UNKNOWN_TIME_SLOT) (issues (validate_schedule no_instructor_input mixed_slots))
     = [unknown_time_slot_issue ''T9'']"
proof -
  have i: "concat (map (\<lambda>k.
         case map_of (session_by_id (mk_vctx no_instructor_input)) (a_session_id (mixed_slots ! k)) of
           None \<Rightarrow> []
         | Some session \<Rightarrow>
             if a_session_id (mixed_slots ! k) \<in> a_session_id ` set (take k mixed_slots) then []
             else if map_of (slot_by_id (mk_vctx no_instructor_input))
                       (a_time_slot_id (mixed_slots ! k)) \<noteq> None
                     \<and> map_of (instructor_by_id (mk_vctx no_instructor_input))
                           (s_instructor_id session) = None
                  then [unknown_instructor_issue (s_instructor_id session)]
                  else [])
       [0 ..< length mixed_slots])
     = [unknown_instructor_issue ''I1'', unknown_instructor_issue ''I1'']"
    by code_simp
  have t: "concat (map (\<lambda>k.
         case map_of (session_by_id (mk_vctx no_instructor_input)) (a_session_id (mixed_slots ! k)) of
           None \<Rightarrow> []
         | Some session \<Rightarrow>
             if a_session_id (mixed_slots ! k) \<in> a_session_id ` set (take k mixed_slots) then []
             else if map_of (slot_by_id (mk_vctx no_instructor_input))
                       (a_time_slot_id (mixed_slots ! k)) = None
                  then [unknown_time_slot_issue (a_time_slot_id (mixed_slots ! k))]
                  else [])
       [0 ..< length mixed_slots])
     = [unknown_time_slot_issue ''T9'']"
    by code_simp
  from unknown_instructor_needs_known_slot [of no_instructor_input mixed_slots]
  show ?thesis by (simp only: i t)
qed

section \<open>Flagged records and the cross-record pass\<close>

lemma filter_code_slot_checks:
  "c \<noteq> UNKNOWN_TIME_SLOT \<Longrightarrow> c \<noteq> UNKNOWN_INSTRUCTOR \<Longrightarrow>
   c \<noteq> INSTRUCTOR_AVAILABILITY_VIOLATION \<Longrightarrow> c \<noteq> COURSE_TIME_WINDOW_VIOLATION \<Longrightarrow>
     filter (\<lambda>i. code i = c) (slot_checks ctx session a) = []"
  by (rule filter_code_empty) (auto dest: slot_checks_codes)

lemma filter_unknown_session_record_report:
  "filter (\<lambda>i. code i = UNKNOWN_SESSION) (record_report data as k)
     = (if flagged_unknown data as k then [unknown_session_issue (as ! k)] else [])"
  by (simp add: record_report_def flagged_unknown_def unknown_session_issue_def
      duplicate_session_issue_def mk_issue_def filter_code_mismatch_checks
      filter_code_room_checks filter_code_slot_checks split: option.splits)

lemma filter_duplicate_record_report:
  "filter (\<lambda>i. code i = DUPLICATE_SESSION_ASSIGNMENT) (record_report data as k)
     = (if flagged_duplicate data as k then [duplicate_session_issue (as ! k)] else [])"
  by (simp add: record_report_def flagged_duplicate_def unknown_session_issue_def
      duplicate_session_issue_def mk_issue_def filter_code_mismatch_checks
      filter_code_room_checks filter_code_slot_checks split: option.splits)

lemma unflagged_records_known:
  "a \<in> set (unflagged_records data as) \<Longrightarrow>
     map_of (session_by_id (mk_vctx data)) (a_session_id a) \<noteq> None"
  using kept_records_known [of a "mk_vctx data" "{}" as] by (simp add: kept_records_unflagged)

lemma unflagged_records_distinct: "distinct (map a_session_id (unflagged_records data as))"
  using kept_records_distinct [of "mk_vctx data" "{}" as] by (simp add: kept_records_unflagged)

lemma unflagged_records_idem:
  "unflagged_records data (unflagged_records data as) = unflagged_records data as"
  using kept_records_idem [of "mk_vctx data" "{}" as] by (simp add: kept_records_unflagged)

lemma conflicts_of_report:
  "filter is_conflict (issues (validate_schedule data as)) =
     conflict_issues room_conflict_issue (usage_of room_key [] (unflagged_records data as))
     @ conflict_issues instructor_conflict_issue
         (usage_of instructor_key [] (unflagged_records data as))"
  by (simp add: validate_schedule_conflicts kept_records_unflagged)

lemma conflict_issues_iff:
  "i \<in> set (conflict_issues mk (usage_of key [] as)) \<longleftrightarrow>
     (\<exists>k. i = mk (k, map a_session_id (filter (\<lambda>a. key a = k) as))
          \<and> 1 < length (filter (\<lambda>a. key a = k) as))"
proof
  assume "i \<in> set (conflict_issues mk (usage_of key [] as))"
  then obtain k l where e: "(k, l) \<in> set (usage_of key [] as)"
    and i: "i = mk (k, l)" and len: "1 < length l"
    by (auto simp: conflict_issues_def)
  from usage_of_entry [OF e] have "l = map a_session_id (filter (\<lambda>a. key a = k) as)" by simp
  with i len show "\<exists>k. i = mk (k, map a_session_id (filter (\<lambda>a. key a = k) as))
          \<and> 1 < length (filter (\<lambda>a. key a = k) as)"
    by (intro exI [of _ k]) simp
next
  assume "\<exists>k. i = mk (k, map a_session_id (filter (\<lambda>a. key a = k) as))
          \<and> 1 < length (filter (\<lambda>a. key a = k) as)"
  then obtain k where i: "i = mk (k, map a_session_id (filter (\<lambda>a. key a = k) as))"
    and len: "1 < length (filter (\<lambda>a. key a = k) as)" by blast
  from len have ne: "filter (\<lambda>a. key a = k) as \<noteq> []" by auto
  have "map_of (usage_of key [] as) k = Some (map a_session_id (filter (\<lambda>a. key a = k) as))"
    using ne by (simp add: map_of_usage_of)
  then have "(k, map a_session_id (filter (\<lambda>a. key a = k) as)) \<in> set (usage_of key [] as)"
    by (rule map_of_SomeD)
  with i len show "i \<in> set (conflict_issues mk (usage_of key [] as))"
    by (force simp: conflict_issues_def)
qed

lemma room_conflict_in_report:
  "(i \<in> set (issues (validate_schedule data as)) \<and> code i = ROOM_TIME_CONFLICT) \<longleftrightarrow>
     (\<exists>r s. i = room_conflict_issue ((r, s), map a_session_id
                   (filter (\<lambda>a. a_room_id a = r \<and> a_time_slot_id a = s)
                      (unflagged_records data as)))
          \<and> 1 < length (filter (\<lambda>a. a_room_id a = r \<and> a_time_slot_id a = s)
                           (unflagged_records data as)))"
proof -
  have "(i \<in> set (issues (validate_schedule data as)) \<and> code i = ROOM_TIME_CONFLICT)
      \<longleftrightarrow> (i \<in> set (filter is_conflict (issues (validate_schedule data as)))
            \<and> code i = ROOM_TIME_CONFLICT)"
    by (auto simp: is_conflict_def)
  also have "\<dots> \<longleftrightarrow> i \<in> set (conflict_issues room_conflict_issue
                                (usage_of room_key [] (unflagged_records data as)))"
    by (auto simp: conflicts_of_report dest: conflict_issues_code)
  also have "\<dots> \<longleftrightarrow> (\<exists>k. i = room_conflict_issue
                  (k, map a_session_id (filter (\<lambda>a. room_key a = k) (unflagged_records data as)))
          \<and> 1 < length (filter (\<lambda>a. room_key a = k) (unflagged_records data as)))"
    by (rule conflict_issues_iff)
  also have "\<dots> \<longleftrightarrow> (\<exists>r s. i = room_conflict_issue ((r, s), map a_session_id
                   (filter (\<lambda>a. a_room_id a = r \<and> a_time_slot_id a = s)
                      (unflagged_records data as)))
          \<and> 1 < length (filter (\<lambda>a. a_room_id a = r \<and> a_time_slot_id a = s)
                           (unflagged_records data as)))"
    by (simp add: room_key_def)
  finally show ?thesis .
qed

lemma instructor_conflict_in_report:
  "(i \<in> set (issues (validate_schedule data as)) \<and> code i = INSTRUCTOR_TIME_CONFLICT) \<longleftrightarrow>
     (\<exists>t s. i = instructor_conflict_issue ((t, s), map a_session_id
                   (filter (\<lambda>a. a_instructor_id a = t \<and> a_time_slot_id a = s)
                      (unflagged_records data as)))
          \<and> 1 < length (filter (\<lambda>a. a_instructor_id a = t \<and> a_time_slot_id a = s)
                           (unflagged_records data as)))"
proof -
  have "(i \<in> set (issues (validate_schedule data as)) \<and> code i = INSTRUCTOR_TIME_CONFLICT)
      \<longleftrightarrow> (i \<in> set (filter is_conflict (issues (validate_schedule data as)))
            \<and> code i = INSTRUCTOR_TIME_CONFLICT)"
    by (auto simp: is_conflict_def)
  also have "\<dots> \<longleftrightarrow> i \<in> set (conflict_issues instructor_conflict_issue
                                (usage_of instructor_key [] (unflagged_records data as)))"
    by (auto simp: conflicts_of_report dest: conflict_issues_code)
  also have "\<dots> \<longleftrightarrow> (\<exists>k. i = instructor_conflict_issue
                  (k, map a_session_id (filter (\<lambda>a. instructor_key a = k)
                                           (unflagged_records data as)))
          \<and> 1 < length (filter (\<lambda>a. instructor_key a = k) (unflagged_records data as)))"
    by (rule conflict_issues_iff)
  also have "\<dots> \<longleftrightarrow> (\<exists>t s. i = instructor_conflict_issue ((t, s), map a_session_id
                   (filter (\<lambda>a. a_instructor_id a = t \<and> a_time_slot_id a = s)
                      (unflagged_records data as)))
          \<and> 1 < length (filter (\<lambda>a. a_instructor_id a = t \<and> a_time_slot_id a = s)
                           (unflagged_records data as)))"
    by (simp add: instructor_key_def)
  finally show ?thesis .
qed

text \<open>
  C10 (as stated): the session id of a record flagged as unknown or duplicate never occurs
  in the \<open>session_ids\<close> of a conflict issue.  For a duplicate this fails: the third record
  below is flagged as a duplicate of \<open>A::S1\<close>, whose first record collides with \<open>A::S2\<close>
  in room \<open>R1\<close> at slot \<open>T1\<close>, so \<open>A::S1\<close> is listed in both conflict issues.
\<close>

theorem duplicate_session_id_in_conflict:
  "map (\<lambda>i. (code i, details i)) (issues (validate_schedule demo_input double_booked)) =
     [(DUPLICATE_SESSION_ASSIGNMENT, [(''session_id'', DStr ''A::S1'')]),
      (ROOM_TIME_CONFLICT,
         [(''room_id'', DStr ''R1''), (''time_slot_id'', DStr ''T1''),
          (''session_ids'', DList [''A::S1'', ''A::S2''])]),
      (INSTRUCTOR_TIME_CONFLICT,
         [(''instructor_id'', DStr ''I1''), (''time_slot_id'', DStr ''T1''),
          (''session_ids'', DList [''A::S1'', ''A::S2''])]),
      (MISSING_SESSION_ASSIGNMENT, [(''session_id'', DStr ''B::S1'')])]"
  by code_simp

text \<open>
  C10 (amended): in \<open>validate_schedule\<close> a record is flagged \<open>UNKNOWN_SESSION\<close> exactly when
  its session id is not the id of an expanded session, and \<open>DUPLICATE_SESSION_ASSIGNMENT\<close>
  exactly when its session exists and an earlier record carries the same session id (one
  issue per flagged record, in record order).  A flagged record is excluded from the
  cross-record conflict pass: the conflict issues of a report are those of the report for
  the unflagged records alone; there is a \<open>ROOM_TIME_CONFLICT\<close> issue exactly for every
  (room, slot) pair that more than one unflagged record uses, its details name that room
  and slot and list as \<open>session_ids\<close> the session ids of the unflagged records on that
  pair, in record order; likewise \<open>INSTRUCTOR_TIME_CONFLICT\<close> for (instructor, slot) pairs.
  The unflagged records have pairwise distinct ids of existing sessions.  So a flagged
  record adds no conflict issue and no entry to one: the id of an unknown session never
  appears, and the id of a duplicated session appears only where its first, unflagged
  record collides.
\<close>

theorem flagged_records_skip_conflict_pass:
  "filter (\<lambda>i. code i = UNKNOWN_SESSION) (issues (validate_schedule data as))
     = concat (map (\<lambda>k. if flagged_unknown data as k then [unknown_session_issue (as ! k)]
                          else []) [0 ..< length as])
   \<and> filter (\<lambda>i. code i = DUPLICATE_SESSION_ASSIGNMENT) (issues (validate_schedule data as))
     = concat (map (\<lambda>k. if flagged_duplicate data as k then [duplicate_session_issue (as ! k)]
                          else []) [0 ..< length as])
   \<and> filter is_conflict (issues (validate_schedule data as))
     = filter is_conflict (issues (validate_schedule data (unflagged_records data as)))
   \<and> (\<forall>i. (i \<in> set (issues (validate_schedule data as)) \<and> code i = ROOM_TIME_CONFLICT) \<longleftrightarrow>
          (\<exists>r s. i = room_conflict_issue ((r, s), map a_session_id
                        (filter (\<lambda>a. a_room_id a = r \<and> a_time_slot_id a = s)
                           (unflagged_records data as)))
               \<and> details i = [(''room_id'', DStr r), (''time_slot_id'', DStr s),
                               (''session_ids'', DList (map a_session_id
                                  (filter (\<lambda>a. a_room_id a = r \<and> a_time_slot_id a = s)
                                     (unflagged_records data as))))]
               \<and> 1 < length (filter (\<lambda>a. a_room_id a = r \<and> a_time_slot_id a = s)
                                (unflagged_records data as))))
   \<and> (\<forall>i. (i \<in> set (issues (validate_schedule data as)) \<and> code i = INSTRUCTOR_TIME_CONFLICT)
          \<longleftrightarrow>
          (\<exists>t s. i = instructor_conflict_issue ((t, s), map a_session_id
                        (filter (\<lambda>a. a_instructor_id a = t \<and> a_time_slot_id a = s)
                           (unflagged_records data as)))
               \<and> details i = [(''instructor_id'', DStr t), (''time_slot_id'', DStr s),
                               (''session_ids'', DList (map a_session_id
                                  (filter (\<lambda>a. a_instructor_id a = t \<and> a_time_slot_id a = s)
                                     (unflagged_records data as))))]
               \<and> 1 < length (filter (\<lambda>a. a_instructor_id a = t \<and> a_time_slot_id a = s)
                                (unflagged_records data as))))
   \<and> distinct (map a_session_id (unflagged_records data as))
   \<and> (\<forall>a \<in> set (unflagged_records data as).
         map_of (session_by_id (mk_vctx data)) (a_session_id a) \<noteq> None)"
proof (intro conjI allI ballI)
  show "filter (\<lambda>i. code i = UNKNOWN_SESSION) (issues (validate_schedule data as))
     = concat (map (\<lambda>k. if flagged_unknown data as k then [unknown_session_issue (as ! k)]
                          else []) [0 ..< length as])"
    by (simp add: filter_code_per_record_pass filter_unknown_session_record_report)
next
  show "filter (\<lambda>i. code i = DUPLICATE_SESSION_ASSIGNMENT) (issues (validate_schedule data as))
     = concat (map (\<lambda>k. if flagged_duplicate data as k then [duplicate_session_issue (as ! k)]
                          else []) [0 ..< length as])"
    by (simp add: filter_code_per_record_pass filter_duplicate_record_report)
next
  show "filter is_conflict (issues (validate_schedule data as))
     = filter is_conflict (issues (validate_schedule data (unflagged_records data as)))"
    by (simp only: conflicts_of_report unflagged_records_idem)
next
  fix i
  have d: "details (room_conflict_issue ((r, s), l))
             = [(''room_id'', DStr r), (''time_slot_id'', DStr s), (''session_ids'', DList l)]"
    for r s l
    by (simp add: room_conflict_issue_def mk_issue_def)
  show "(i \<in> set (issues (validate_schedule data as)) \<and> code i = ROOM_TIME_CONFLICT) \<longleftrightarrow>
          (\<exists>r s. i = room_conflict_issue ((r, s), map a_session_id
                        (filter (\<lambda>a. a_room_id a = r \<and> a_time_slot_id a = s)
                           (unflagged_records data as)))
               \<and> details i = [(''room_id'', DStr r), (''time_slot_id'', DStr s),
                               (''session_ids'', DList (map a_session_id
                                  (filter (\<lambda>a. a_room_id a = r \<and> a_time_slot_id a = s)
                                     (unflagged_records data as))))]
               \<and> 1 < length (filter (\<lambda>a. a_room_id a = r \<and> a_time_slot_id a = s)
                                (unflagged_records data as)))"
    unfolding room_conflict_in_report using d by blast
next
  fix i
  have d: "details (instructor_conflict_issue ((t, s), l))
             = [(''instructor_id'', DStr t), (''time_slot_id'', DStr s),
                (''session_ids'', DList l)]"
    for t s l
    by (simp add: instructor_conflict_issue_def mk_issue_def)
  show "(i \<in> set (issues (validate_schedule data as)) \<and> code i = INSTRUCTOR_TIME_CONFLICT)
          \<longleftrightarrow>
          (\<exists>t s. i = instructor_conflict_issue ((t, s), map a_session_id
                        (filter (\<lambda>a. a_instructor_id a = t \<and> a_time_slot_id a = s)
                           (unflagged_records data as)))
               \<and> details i = [(''instructor_id'', DStr t), (''time_slot_id'', DStr s),
                               (''session_ids'', DList (map a_session_id
                                  (filter (\<lambda>a. a_instructor_id a = t \<and> a_time_slot_id a = s)
                                     (unflagged_records data as))))]
               \<and> 1 < length (filter (\<lambda>a. a_instructor_id a = t \<and> a_time_slot_id a = s)
                                (unflagged_records data as)))"
    unfolding instructor_conflict_in_report using d by blast
next
  show "distinct (map a_session_id (unflagged_records data as))"
    by (rule unflagged_records_distinct)
next
  fix a
  assume "a \<in> set (unflagged_records data as)"
  then show "map_of (session_by_id (mk_vctx data)) (a_session_id a) \<noteq> None"
    by (rule unflagged_records_known)
qed

theorem flagged_records_skip_conflict_pass_witness:
  "unflagged_records demo_input shadowed_double_booking
     = [assign ''A::S1'' ''A'' ''I1'' ''R1'' ''T1'', assign ''B::S1'' ''B'' ''I1'' ''R2'' ''T2'',
        assign ''A::S2'' ''A'' ''I1'' ''R2'' ''T2'']
   \<and> filter (\<lambda>i. code i = UNKNOWN_SESSION)
         (issues (validate_schedule demo_input shadowed_double_booking))
       = [unknown_session_issue (assign ''X::S1'' ''X'' ''I1'' ''R1'' ''T1'')]
   \<and> filter (\<lambda>i. code i = DUPLICATE_SESSION_ASSIGNMENT)
         (issues (validate_schedule demo_input shadowed_double_booking))
       = [duplicate_session_issue (assign ''A::S1'' ''A'' ''I1'' ''R2'' ''T2'')]
   \<and> room_conflict_issue ((''R2'', ''T2''), [''B::S1'', ''A::S2''])
       \<in> set (issues (validate_schedule demo_input shadowed_double_booking))
   \<and> instructor_conflict_issue ((''I1'', ''T2''), [''B::S1'', ''A::S2''])
       \<in> set (issues (validate_schedule demo_input shadowed_double_booking))
   \<and> filter is_conflict (issues (validate_schedule demo_input shadowed_double_booking))
       = [room_conflict_issue ((''R2'', ''T2''), [''B::S1'', ''A::S2'']),
          instructor_conflict_issue ((''I1'', ''T2''), [''B::S1'', ''A::S2''])]"
proof -
  let ?as = shadowed_double_booking
  let ?u = "[assign ''A::S1'' ''A'' ''I1'' ''R1'' ''T1'', assign ''B::S1'' ''B'' ''I1'' ''R2'' ''T2'',
             assign ''A::S2'' ''A'' ''I1'' ''R2'' ''T2'']"
  note inst = flagged_records_skip_conflict_pass [of demo_input ?as]
  have u: "unflagged_records demo_input ?as = ?u" by code_simp
  have f1: "concat (map (\<lambda>k. if flagged_unknown demo_input ?as k
                              then [unknown_session_issue (?as ! k)] else []) [0 ..< length ?as])
              = [unknown_session_issue (assign ''X::S1'' ''X'' ''I1'' ''R1'' ''T1'')]"
    by code_simp
  have f2: "concat (map (\<lambda>k. if flagged_duplicate demo_input ?as k
                              then [duplicate_session_issue (?as ! k)] else []) [0 ..< length ?as])
              = [duplicate_session_issue (assign ''A::S1'' ''A'' ''I1'' ''R2'' ''T2'')]"
    by code_simp
  have fr: "filter (\<lambda>a. a_room_id a = ''R2'' \<and> a_time_slot_id a = ''T2'') ?u
             = [assign ''B::S1'' ''B'' ''I1'' ''R2'' ''T2'', assign ''A::S2'' ''A'' ''I1'' ''R2'' ''T2'']"
    by (simp add: assign_def)
  have ft: "filter (\<lambda>a. a_instructor_id a = ''I1'' \<and> a_time_slot_id a = ''T2'') ?u
             = [assign ''B::S1'' ''B'' ''I1'' ''R2'' ''T2'', assign ''A::S2'' ''A'' ''I1'' ''R2'' ''T2'']"
    by (simp add: assign_def)
  have c1: "filter (\<lambda>i. code i = UNKNOWN_SESSION) (issues (validate_schedule demo_input ?as))
       = [unknown_session_issue (assign ''X::S1'' ''X'' ''I1'' ''R1'' ''T1'')]"
    using inst by (simp only: f1)
  have c2: "filter (\<lambda>i. code i = DUPLICATE_SESSION_ASSIGNMENT)
              (issues (validate_schedule demo_input ?as))
       = [duplicate_session_issue (assign ''A::S1'' ''A'' ''I1'' ''R2'' ''T2'')]"
    using inst by (simp only: f2)
  have dr: "details (room_conflict_issue ((''R2'', ''T2''), [''B::S1'', ''A::S2'']))
              = [(''room_id'', DStr ''R2''), (''time_slot_id'', DStr ''T2''),
                 (''session_ids'', DList [''B::S1'', ''A::S2''])]"
    by (simp add: room_conflict_issue_def mk_issue_def)
  have dt: "details (instructor_conflict_issue ((''I1'', ''T2''), [''B::S1'', ''A::S2'']))
              = [(''instructor_id'', DStr ''I1''), (''time_slot_id'', DStr ''T2''),
                 (''session_ids'', DList [''B::S1'', ''A::S2''])]"
    by (simp add: instructor_conflict_issue_def mk_issue_def)
  from inst have room: "\<And>i. (i \<in> set (issues (validate_schedule demo_input ?as))
                              \<and> code i = ROOM_TIME_CONFLICT) \<longleftrightarrow>
          (\<exists>r s. i = room_conflict_issue ((r, s), map a_session_id
                        (filter (\<lambda>a. a_room_id a = r \<and> a_time_slot_id a = s) ?u))
               \<and> details i = [(''room_id'', DStr r), (''time_slot_id'', DStr s),
                               (''session_ids'', DList (map a_session_id
                                  (filter (\<lambda>a. a_room_id a = r \<and> a_time_slot_id a = s) ?u)))]
               \<and> 1 < length (filter (\<lambda>a. a_room_id a = r \<and> a_time_slot_id a = s) ?u))"
    unfolding u by blast
  have c3: "room_conflict_issue ((''R2'', ''T2''), [''B::S1'', ''A::S2''])
              \<in> set (issues (validate_schedule demo_input ?as))"
  proof -
    have "\<exists>r s. room_conflict_issue ((''R2'', ''T2''), [''B::S1'', ''A::S2''])
                 = room_conflict_issue ((r, s), map a_session_id
                        (filter (\<lambda>a. a_room_id a = r \<and> a_time_slot_id a = s) ?u))
               \<and> details (room_conflict_issue ((''R2'', ''T2''), [''B::S1'', ''A::S2'']))
                   = [(''room_id'', DStr r), (''time_slot_id'', DStr s),
                      (''session_ids'', DList (map a_session_id
                          (filter (\<lambda>a. a_room_id a = r \<and> a_time_slot_id a = s) ?u)))]
               \<and> 1 < length (filter (\<lambda>a. a_room_id a = r \<and> a_time_slot_id a = s) ?u)"
      by (intro exI [of _ "''R2''"] exI [of _ "''T2''"]) (simp add: fr dr assign_def)
    from room [THEN iffD2, OF this] show ?thesis by (rule conjunct1)
  qed
  from inst have instr: "\<And>i. (i \<in> set (issues (validate_schedule demo_input ?as))
                              \<and> code i = INSTRUCTOR_TIME_CONFLICT) \<longleftrightarrow>
          (\<exists>t s. i = instructor_conflict_issue ((t, s), map a_session_id
                        (filter (\<lambda>a. a_instructor_id a = t \<and> a_time_slot_id a = s) ?u))
               \<and> details i = [(''instructor_id'', DStr t), (''time_slot_id'', DStr s),
                               (''session_ids'', DList (map a_session_id
                                  (filter (\<lambda>a. a_instructor_id a = t \<and> a_time_slot_id a = s) ?u)))]
               \<and> 1 < length (filter (\<lambda>a. a_instructor_id a = t \<and> a_time_slot_id a = s) ?u))"
    unfolding u by blast
  have c4: "instructor_conflict_issue ((''I1'', ''T2''), [''B::S1'', ''A::S2''])
              \<in> set (issues (validate_schedule demo_input ?as))"
  proof -
    have "\<exists>t s. instructor_conflict_issue ((''I1'', ''T2''), [''B::S1'', ''A::S2''])
                 = instructor_conflict_issue ((t, s), map a_session_id
                        (filter (\<lambda>a. a_instructor_id a = t \<and> a_time_slot_id a = s) ?u))
               \<and> details (instructor_conflict_issue ((''I1'', ''T2''), [''B::S1'', ''A::S2'']))
                   = [(''instructor_id'', DStr t), (''time_slot_id'', DStr s),
                      (''session_ids'', DList (map a_session_id
                          (filter (\<lambda>a. a_instructor_id a = t \<and> a_time_slot_id a = s) ?u)))]
               \<and> 1 < length (filter (\<lambda>a. a_instructor_id a = t \<and> a_time_slot_id a = s) ?u)"
      by (intro exI [of _ "''I1''"] exI [of _ "''T2''"]) (simp add: ft dt assign_def)
    from instr [THEN iffD2, OF this] show ?thesis by (rule conjunct1)
  qed
  have v: "filter is_conflict (issues (validate_schedule demo_input ?u))
       = [room_conflict_issue ((''R2'', ''T2''), [''B::S1'', ''A::S2'']),
          instructor_conflict_issue ((''I1'', ''T2''), [''B::S1'', ''A::S2''])]"
    by code_simp
  from inst have "filter is_conflict (issues (validate_schedule demo_input ?as))
     = filter is_conflict (issues (validate_schedule demo_input ?u))"
    unfolding u by blast
  with v have c5: "filter is_conflict (issues (validate_schedule demo_input ?as))
       = [room_conflict_issue ((''R2'', ''T2''), [''B::S1'', ''A::S2'']),
          instructor_conflict_issue ((''I1'', ''T2''), [''B::S1'', ''A::S2''])]"
    by simp
  from u c1 c2 c3 c4 c5 show ?thesis by (intro conjI)
qed

section \<open>The candidate scan\<close>

lemma scan_candidates_error:
  "survivors ctx st session instructor cands = Inl e \<Longrightarrow>
     scan_candidates ctx st session instructor cands best = Inl e"
proof (induction cands arbitrary: best)
  case Nil
  then show ?case by simp
next
  case (Cons cand rest)
  obtain room_id slot_id where c: "cand = (room_id, slot_id)" by (cases cand)
  from Cons show ?case
    by (auto simp: c candidate_eval_def split: option.splits sum.splits if_splits)
qed

lemma scan_candidates_fold:
  "survivors ctx st session instructor cands = Inr l \<Longrightarrow>
     scan_candidates ctx st session instructor cands best = Inr (foldl better best l)"
proof (induction cands arbitrary: best l)
  case Nil
  then show ?case by simp
next
  case (Cons cand rest)
  obtain room_id slot_id where c: "cand = (room_id, slot_id)" by (cases cand)
  from Cons.prems show ?case
    by (auto simp: c candidate_eval_def better_def Cons.IH
        split: option.splits sum.splits if_splits)
qed

lemma earliest_best_Nil [simp]: "earliest_best [] = None"
  by (simp add: earliest_best_def)

lemma Max_snd_Cons:
  "Max (snd ` set (x # l)) = (if l = [] then snd x else max (snd x) (Max (snd ` set l)))"
proof (cases l)
  case Nil
  then show ?thesis by simp
next
  case (Cons y l')
  have "snd ` set (x # l) = insert (snd x) (snd ` set l)" by auto
  then have "Max (snd ` set (x # l)) = max (snd x) (Max (snd ` set l))"
    by (simp only:) (rule Max_insert, auto simp: Cons)
  then show ?thesis by (simp add: Cons)
qed

lemma earliest_best_step:
  "earliest_best (x # y # l) =
     (if snd y > snd x then earliest_best (y # l) else earliest_best (x # l))"
proof (cases "snd y > snd x")
  case True
  define M where "M = Max (snd ` set (y # l))"
  have "snd y \<le> M" unfolding M_def by (intro Max_ge) auto
  with True have lt: "snd x < M" by linarith
  have m: "Max (snd ` set (x # y # l)) = M"
    using lt by (subst Max_snd_Cons) (simp add: M_def max_absorb2)
  have "earliest_best (x # y # l) = find (\<lambda>z. snd z = M) (x # y # l)"
    unfolding earliest_best_def m ..
  also have "\<dots> = find (\<lambda>z. snd z = M) (y # l)" using lt by simp
  also have "\<dots> = earliest_best (y # l)" unfolding earliest_best_def M_def ..
  finally show ?thesis using True by simp
next
  case False
  define M where "M = Max (snd ` set (x # l))"
  have xm: "snd x \<le> M" unfolding M_def by (intro Max_ge) auto
  with False have ym: "snd y \<le> M" by linarith
  have "snd ` set (x # y # l) = insert (snd y) (snd ` set (x # l))" by auto
  then have "Max (snd ` set (x # y # l)) = max (snd y) (Max (snd ` set (x # l)))"
    by (simp only:) (rule Max_insert, auto)
  with ym have m: "Max (snd ` set (x # y # l)) = M" by (simp add: M_def max_absorb2)
  have "earliest_best (x # y # l) = find (\<lambda>z. snd z = M) (x # y # l)"
    unfolding earliest_best_def m ..
  also have "\<dots> = find (\<lambda>z. snd z = M) (x # l)"
  proof (cases "snd x = M")
    case True
    then show ?thesis by simp
  next
    case neq: False
    with xm False have "snd y \<noteq> M" by linarith
    with neq show ?thesis by simp
  qed
  also have "\<dots> = earliest_best (x # l)" unfolding earliest_best_def M_def ..
  finally show ?thesis using False by simp
qed

lemma foldl_better_Some:
  "foldl better (Some x) l = earliest_best (x # l)"
proof (induction l arbitrary: x)
  case Nil
  then show ?case by (simp add: earliest_best_def)
next
  case (Cons y l)
  have "better (Some x) y = (if snd y > snd x then Some y else Some x)"
    by (cases x) (simp add: better_def)
  then show ?case by (simp add: Cons.IH earliest_best_step)
qed

lemma foldl_better_None: "foldl better None l = earliest_best l"
proof (cases l)
  case Nil
  then show ?thesis by simp
next
  case (Cons x l')
  have "better None x = Some x" by (simp add: better_def)
  then show ?thesis by (simp add: Cons foldl_better_Some)
qed

lemma scan_candidates_earliest_best:
  "scan_candidates ctx st session instructor cands None =
     (case survivors ctx st session instructor cands of
        Inl e \<Rightarrow> Inl e
      | Inr l \<Rightarrow> Inr (earliest_best l))"
  by (simp add: scan_candidates_error scan_candidates_fold foldl_better_None split: sum.splits)

section \<open>The table of feasible candidates\<close>

lemma map_of_foldl_update:
  "map_of (foldl (\<lambda>d x. AList.update (key x) (val x) d) d0 xs) k
     = (case find (\<lambda>x. key x = k) (rev xs) of
          None \<Rightarrow> map_of d0 k | Some x \<Rightarrow> Some (val x))"
proof (induction xs arbitrary: d0)
  case Nil
  then show ?case by simp
next
  case (Cons x xs)
  show ?case
    by (simp add: Cons.IH find_append_cases update_conv' split: option.splits)
qed

lemma build_feasible_candidates_eq:
  "build_feasible_candidates data sessions
     = foldl (\<lambda>d s. AList.update (session_id s) (candidates_for data s) d) [] sessions"
proof -
  have "(\<lambda>feasible session.
           case map_of (dict_by i_id (instructors data)) (s_instructor_id session) of
             None \<Rightarrow> AList.update (session_id session) [] feasible
           | Some instructor \<Rightarrow>
               AList.update (session_id session)
                 (session_options (map snd (dict_by r_id (rooms data)))
                    (sort_key ts_order (time_slots data)) instructor session) feasible)
        = (\<lambda>d s. AList.update (session_id s) (candidates_for data s) d)"
    by (auto simp: fun_eq_iff candidates_for_def split: option.splits)
  then show ?thesis by (simp add: build_feasible_candidates_def Let_def)
qed

lemma map_of_build_feasible_candidates:
  "map_of (build_feasible_candidates data sessions) sid
     = map_option (candidates_for data) (find (\<lambda>s. session_id s = sid) (rev sessions))"
  by (simp add: build_feasible_candidates_eq map_of_foldl_update split: option.splits)

lemma update_fresh_key:
  "k \<notin> fst ` set al \<Longrightarrow> AList.update k v al = al @ [(k, v)]"
  by (induction al) auto

lemma dict_by_distinct:
  assumes "distinct (map key xs)"
  shows "dict_by key xs = map (\<lambda>x. (key x, x)) xs"
proof -
  have "distinct (map key (ys @ xs)) \<Longrightarrow>
        foldl (\<lambda>d x. AList.update (key x) x d) (map (\<lambda>x. (key x, x)) ys) xs
          = map (\<lambda>x. (key x, x)) (ys @ xs)" for ys
  proof (induction xs arbitrary: ys)
    case Nil
    then show ?case by simp
  next
    case (Cons x xs)
    have "key x \<notin> fst ` set (map (\<lambda>x. (key x, x)) ys)" using Cons.prems by force
    then have "AList.update (key x) x (map (\<lambda>x. (key x, x)) ys)
                 = map (\<lambda>x. (key x, x)) (ys @ [x])"
      by (simp add: update_fresh_key)
    then show ?case using Cons.IH [of "ys @ [x]"] Cons.prems by simp
  qed
  from this [of "[]"] assms show ?thesis by (simp add: dict_by_def)
qed

lemma values_dict_by_distinct:
  "distinct (map key xs) \<Longrightarrow> map snd (dict_by key xs) = xs"
  by (simp add: dict_by_distinct o_def)

section \<open>Placing one session\<close>

lemma place_session_cases:
  "place_session ctx st session =
     (case map_of (h_feasible_candidates ctx) (session_id session) of
        None \<Rightarrow> Inl KeyError
      | Some cands \<Rightarrow>
          (case map_of (h_instructor_by_id ctx) (s_instructor_id session) of
             None \<Rightarrow> Inr (mark_unscheduled st session)
           | Some instructor \<Rightarrow>
               (case survivors ctx st session instructor cands of
                  Inl e \<Rightarrow> if cands = [] then Inr (mark_unscheduled st session) else Inl e
                | Inr l \<Rightarrow>
                    (case earliest_best l of
                       None \<Rightarrow> Inr (mark_unscheduled st session)
                     | Some (cand, score) \<Rightarrow>
                         (case map_of (h_slot_by_id ctx) (snd cand) of
                            None \<Rightarrow> Inl KeyError
                          | Some slot \<Rightarrow> Inr (commit st session (fst cand) (snd cand) slot))))))"
  by (auto simp: place_session_def scan_candidates_earliest_best
      split: option.splits sum.splits prod.splits)

lemma hs_assignments_commit:
  "hs_assignments (commit st session room_id slot_id slot)
     = hs_assignments st @ [placement session (room_id, slot_id)]"
  by (simp add: commit_def placement_def)

text \<open>One run of the loop body: which candidate it commits.\<close>

lemma place_session_picks_earliest_best:
  assumes "place_session (mk_hctx data sessions) st session = Inr st'"
  shows "\<exists>session' cands.
      find (\<lambda>s. session_id s = session_id session) (rev sessions) = Some session'
    \<and> map_of (h_feasible_candidates (mk_hctx data sessions)) (session_id session) = Some cands
    \<and> cands = candidates_for data session'
    \<and> (distinct (map r_id (rooms data)) \<longrightarrow> map snd (dict_by r_id (rooms data)) = rooms data)
    \<and> sorted (map ts_order (sort_key ts_order (time_slots data)))
    \<and> (case map_of (dict_by i_id (instructors data)) (s_instructor_id session) of
         None \<Rightarrow> st' = mark_unscheduled st session
       | Some instructor \<Rightarrow>
           \<exists>l. survivors (mk_hctx data sessions) st session instructor cands = Inr l
             \<and> (case earliest_best l of
                  None \<Rightarrow> st' = mark_unscheduled st session
                | Some (cand, score) \<Rightarrow>
                    hs_assignments st' = hs_assignments st @ [placement session cand]))"
proof -
  let ?ctx = "mk_hctx data sessions"
  from assms obtain cands
    where c: "map_of (h_feasible_candidates ?ctx) (session_id session) = Some cands"
    by (auto simp: place_session_cases split: option.splits)
  then obtain session'
    where f: "find (\<lambda>s. session_id s = session_id session) (rev sessions) = Some session'"
      and e: "cands = candidates_for data session'"
    by (auto simp: mk_hctx_def map_of_build_feasible_candidates)
  have sel: "case map_of (dict_by i_id (instructors data)) (s_instructor_id session) of
         None \<Rightarrow> st' = mark_unscheduled st session
       | Some instructor \<Rightarrow>
           \<exists>l. survivors ?ctx st session instructor cands = Inr l
             \<and> (case earliest_best l of
                  None \<Rightarrow> st' = mark_unscheduled st session
                | Some (cand, score) \<Rightarrow>
                    hs_assignments st' = hs_assignments st @ [placement session cand])"
  proof (cases "map_of (dict_by i_id (instructors data)) (s_instructor_id session)")
    case None
    with assms c show ?thesis by (simp add: place_session_cases mk_hctx_def)
  next
    case (Some instructor)
    then have i: "map_of (h_instructor_by_id ?ctx) (s_instructor_id session) = Some instructor"
      by (simp add: mk_hctx_def)
    show ?thesis
    proof (cases "survivors ?ctx st session instructor cands")
      case (Inl err)
      then have "cands \<noteq> []" by (cases cands) auto
      with assms c i Inl show ?thesis by (simp add: place_session_cases)
    next
      case (Inr l)
      with assms c i have "case earliest_best l of
                  None \<Rightarrow> st' = mark_unscheduled st session
                | Some (cand, score) \<Rightarrow>
                    hs_assignments st' = hs_assignments st @ [placement session cand]"
        by (auto simp: place_session_cases hs_assignments_commit split: option.splits)
      with Inr Some show ?thesis by simp
    qed
  qed
  have "sorted (map ts_order (sort_key ts_order (time_slots data)))"
    by (rule sorted_sort_key)
  with c f e sel show ?thesis
    by (intro exI [of _ session'] exI [of _ cands]) (simp add: values_dict_by_distinct)
qed

section \<open>The pass over the sorted sessions\<close>

lemma place_all_trace:
  assumes "place_all ctx st ss = Inr st'"
  shows "\<exists>sts. length sts = Suc (length ss) \<and> sts ! 0 = st \<and> sts ! length ss = st'
           \<and> (\<forall>k < length ss. place_session ctx (sts ! k) (ss ! k) = Inr (sts ! Suc k))"
  using assms
proof (induction ss arbitrary: st)
  case Nil
  then show ?case by (intro exI [of _ "[st]"]) simp
next
  case (Cons s ss)
  from Cons.prems obtain st1 where p: "place_session ctx st s = Inr st1"
    and r: "place_all ctx st1 ss = Inr st'"
    by (auto split: sum.splits)
  from Cons.IH [OF r] obtain sts where l: "length sts = Suc (length ss)"
    and h: "sts ! 0 = st1" and e: "sts ! length ss = st'"
    and t: "\<forall>k < length ss. place_session ctx (sts ! k) (ss ! k) = Inr (sts ! Suc k)"
    by blast
  have "\<forall>k < length (s # ss).
          place_session ctx ((st # sts) ! k) ((s # ss) ! k) = Inr ((st # sts) ! Suc k)"
  proof (intro allI impI)
    fix k
    assume "k < length (s # ss)"
    then show "place_session ctx ((st # sts) ! k) ((s # ss) ! k) = Inr ((st # sts) ! Suc k)"
      using p h t by (cases k) simp_all
  qed
  with l e show ?case by (intro exI [of _ "st # sts"]) simp
qed

lemma solve_with_heuristic_trace:
  assumes "solve_with_heuristic t_start t_end data = Inr out"
  shows "\<exists>sorted_sessions sts.
      sort_sessions (build_feasible_candidates data (expand_course_sessions (courses data)))
        (expand_course_sessions (courses data)) = Inr sorted_sessions
    \<and> length sts = Suc (length sorted_sessions) \<and> sts ! 0 = hstate_init
    \<and> h_assignments out = hs_assignments (sts ! length sorted_sessions)
    \<and> (\<forall>k < length sorted_sessions.
          place_session (mk_hctx data (expand_course_sessions (courses data))) (sts ! k)
            (sorted_sessions ! k) = Inr (sts ! Suc k))"
proof -
  let ?sessions = "expand_course_sessions (courses data)"
  let ?ctx = "mk_hctx data ?sessions"
  from assms obtain sorted_sessions st
    where s: "sort_sessions (h_feasible_candidates ?ctx) ?sessions = Inr sorted_sessions"
      and p: "place_all ?ctx hstate_init sorted_sessions = Inr st"
      and o: "h_assignments out = hs_assignments st"
    by (auto simp: solve_with_heuristic_def Let_def split: sum.splits)
  from place_all_trace [OF p] obtain sts where "length sts = Suc (length sorted_sessions)"
    "sts ! 0 = hstate_init" "sts ! length sorted_sessions = st"
    "\<forall>k < length sorted_sessions.
       place_session ?ctx (sts ! k) (sorted_sessions ! k) = Inr (sts ! Suc k)"
    by blast
  with s o show ?thesis
    by (intro exI [of _ sorted_sessions] exI [of _ sts]) (simp add: mk_hctx_def)
qed

lemma swapped_rooms_run:
  "map_sum id h_assignments (solve_with_heuristic 0 1 swapped_rooms_input)
     = Inr [assign ''B::S1'' ''B'' ''I1'' ''R2'' ''T1'']"
  by code_simp

lemma swapped_rooms_survivors:
  "survivors (mk_hctx swapped_rooms_input (expand_course_sessions [course_b])) hstate_init
        (make_session course_b 1) instructor_i1 [(''R2'', ''T1''), (''R1'', ''T1'')]
       = Inr [((''R2'', ''T1''), 300), ((''R1'', ''T1''), 300)]"
  by code_simp

text \<open>
  C5 (as stated): ties between surviving candidates of equal local score go to the first
  candidate in an enumeration by ascending room id and then ascending slot order index.
  The rooms are enumerated in the order of \<^verbatim>\<open>room_by_id.values()\<close>, the order in which
  the input lists them: with room \<open>R2\<close> listed before \<open>R1\<close>, both surviving with score
  300, the heuristic places the session in \<open>R2\<close>, although \<open>R1\<close> is the smaller room id.
\<close>

theorem heuristic_tie_goes_to_first_listed_room:
  "map_sum id (\<lambda>out. map room_key (h_assignments out))
       (solve_with_heuristic 0 1 swapped_rooms_input) = Inr [(''R2'', ''T1'')]
   \<and> map r_id (rooms swapped_rooms_input) = [''R2'', ''R1'']
   \<and> survivors (mk_hctx swapped_rooms_input (expand_course_sessions [course_b])) hstate_init
        (make_session course_b 1) instructor_i1 [(''R2'', ''T1''), (''R1'', ''T1'')]
       = Inr [((''R2'', ''T1''), 300), ((''R1'', ''T1''), 300)]
   \<and> ''R1'' < ''R2''"
proof -
  from swapped_rooms_run obtain out
    where "solve_with_heuristic 0 1 swapped_rooms_input = Inr out"
      and "h_assignments out = [assign ''B::S1'' ''B'' ''I1'' ''R2'' ''T1'']"
    by (cases "solve_with_heuristic 0 1 swapped_rooms_input") auto
  then have "map_sum id (\<lambda>out. map room_key (h_assignments out))
       (solve_with_heuristic 0 1 swapped_rooms_input) = Inr [(''R2'', ''T1'')]"
    by (simp add: room_key_def assign_def)
  moreover have "map r_id (rooms swapped_rooms_input) = [''R2'', ''R1'']"
    by (simp add: swapped_rooms_input_def room_r1_def room_r2_def)
  moreover have "''R1'' < ''R2''" by code_simp
  ultimately show ?thesis using swapped_rooms_survivors by (intro conjI)
qed

text \<open>
  C5 (amended): in the heuristic solver the candidates of a session are enumerated by room
  in the order of \<^verbatim>\<open>room_by_id.values()\<close> (the input order of the rooms when their ids are
  distinct) and, within a room, by ascending time-slot order index; so for every input and
  every session, taken in the sorted order, the selected (room, slot) is the first
  candidate in that enumeration order among the surviving candidates of maximal local
  score (ties go to the earlier candidate), and a session without a surviving candidate
  is left unscheduled.
\<close>

theorem heuristic_selects_earliest_best:
  assumes "solve_with_heuristic t_start t_end data = Inr out"
  shows "\<exists>sorted_sessions sts.
      sort_sessions (build_feasible_candidates data (expand_course_sessions (courses data)))
        (expand_course_sessions (courses data)) = Inr sorted_sessions
    \<and> length sts = Suc (length sorted_sessions) \<and> sts ! 0 = hstate_init
    \<and> h_assignments out = hs_assignments (sts ! length sorted_sessions)
    \<and> (distinct (map r_id (rooms data)) \<longrightarrow> map snd (dict_by r_id (rooms data)) = rooms data)
    \<and> sorted (map ts_order (sort_key ts_order (time_slots data)))
    \<and> (\<forall>k < length sorted_sessions.
          place_session (mk_hctx data (expand_course_sessions (courses data))) (sts ! k)
            (sorted_sessions ! k) = Inr (sts ! Suc k)
        \<and> (\<exists>session'.
              find (\<lambda>s. session_id s = session_id (sorted_sessions ! k))
                (rev (expand_course_sessions (courses data))) = Some session'
            \<and> (case map_of (dict_by i_id (instructors data))
                        (s_instructor_id (sorted_sessions ! k)) of
                  None \<Rightarrow> sts ! Suc k = mark_unscheduled (sts ! k) (sorted_sessions ! k)
                | Some instructor \<Rightarrow>
                    \<exists>l. survivors (mk_hctx data (expand_course_sessions (courses data)))
                           (sts ! k) (sorted_sessions ! k) instructor
                           (candidates_for data session') = Inr l
                      \<and> (case earliest_best l of
                           None \<Rightarrow> sts ! Suc k = mark_unscheduled (sts ! k) (sorted_sessions ! k)
                         | Some (cand, score) \<Rightarrow>
                             hs_assignments (sts ! Suc k)
                               = hs_assignments (sts ! k)
                                 @ [placement (sorted_sessions ! k) cand]))))"
proof -
  let ?sessions = "expand_course_sessions (courses data)"
  let ?ctx = "mk_hctx data ?sessions"
  from solve_with_heuristic_trace [OF assms] obtain sorted_sessions sts
    where s: "sort_sessions (build_feasible_candidates data ?sessions) ?sessions
                = Inr sorted_sessions"
      and l: "length sts = Suc (length sorted_sessions)" and h: "sts ! 0 = hstate_init"
      and o: "h_assignments out = hs_assignments (sts ! length sorted_sessions)"
      and t: "\<forall>k < length sorted_sessions.
                place_session ?ctx (sts ! k) (sorted_sessions ! k) = Inr (sts ! Suc k)"
    by blast
  have step: "place_session ?ctx (sts ! k) (sorted_sessions ! k) = Inr (sts ! Suc k)
        \<and> (\<exists>session'.
              find (\<lambda>s. session_id s = session_id (sorted_sessions ! k)) (rev ?sessions)
                = Some session'
            \<and> (case map_of (dict_by i_id (instructors data))
                        (s_instructor_id (sorted_sessions ! k)) of
                  None \<Rightarrow> sts ! Suc k = mark_unscheduled (sts ! k) (sorted_sessions ! k)
                | Some instructor \<Rightarrow>
                    \<exists>l. survivors ?ctx (sts ! k) (sorted_sessions ! k) instructor
                           (candidates_for data session') = Inr l
                      \<and> (case earliest_best l of
                           None \<Rightarrow> sts ! Suc k = mark_unscheduled (sts ! k) (sorted_sessions ! k)
                         | Some (cand, score) \<Rightarrow>
                             hs_assignments (sts ! Suc k)
                               = hs_assignments (sts ! k)
                                 @ [placement (sorted_sessions ! k) cand])))"
    if "k < length sorted_sessions" for k
  proof -
    from t that have p: "place_session ?ctx (sts ! k) (sorted_sessions ! k) = Inr (sts ! Suc k)"
      by simp
    from place_session_picks_earliest_best [OF p] p show ?thesis by blast
  qed
  have "sorted (map ts_order (sort_key ts_order (time_slots data)))"
    by (rule sorted_sort_key)
  moreover have "distinct (map r_id (rooms data))
                   \<longrightarrow> map snd (dict_by r_id (rooms data)) = rooms data"
    by (simp add: values_dict_by_distinct)
  ultimately show ?thesis using s l h o step
    by (intro exI [of _ sorted_sessions] exI [of _ sts]) simp
qed

theorem heuristic_selects_earliest_best_witness:
  "\<exists>out. solve_with_heuristic 0 1 swapped_rooms_input = Inr out
     \<and> h_assignments out = [assign ''B::S1'' ''B'' ''I1'' ''R2'' ''T1'']
     \<and> distinct (map r_id (rooms swapped_rooms_input))
     \<and> map snd (dict_by r_id (rooms swapped_rooms_input)) = rooms swapped_rooms_input
     \<and> earliest_best [((''R2'', ''T1''), 300), ((''R1'', ''T1''), 300 :: int)]
         = Some ((''R2'', ''T1''), 300)
     \<and> (\<exists>sorted_sessions sts.
          sort_sessions
            (build_feasible_candidates swapped_rooms_input
               (expand_course_sessions (courses swapped_rooms_input)))
            (expand_course_sessions (courses swapped_rooms_input)) = Inr sorted_sessions
        \<and> length sts = Suc (length sorted_sessions) \<and> sts ! 0 = hstate_init
        \<and> h_assignments out = hs_assignments (sts ! length sorted_sessions)
        \<and> (\<forall>k < length sorted_sessions.
              place_session
                (mk_hctx swapped_rooms_input (expand_course_sessions (courses swapped_rooms_input)))
                (sts ! k) (sorted_sessions ! k) = Inr (sts ! Suc k)))"
proof -
  from swapped_rooms_run obtain out
    where r: "solve_with_heuristic 0 1 swapped_rooms_input = Inr out"
      and a: "h_assignments out = [assign ''B::S1'' ''B'' ''I1'' ''R2'' ''T1'']"
    by (cases "solve_with_heuristic 0 1 swapped_rooms_input") auto
  have d: "distinct (map r_id (rooms swapped_rooms_input))"
    by (simp add: swapped_rooms_input_def room_r1_def room_r2_def)
  have e: "earliest_best [((''R2'', ''T1''), 300), ((''R1'', ''T1''), 300 :: int)]
             = Some ((''R2'', ''T1''), 300)"
    by (simp add: earliest_best_def)
  from heuristic_selects_earliest_best [OF r] obtain sorted_sessions sts
    where c: "sort_sessions
            (build_feasible_candidates swapped_rooms_input
               (expand_course_sessions (courses swapped_rooms_input)))
            (expand_course_sessions (courses swapped_rooms_input)) = Inr sorted_sessions"
      "length sts = Suc (length sorted_sessions)" "sts ! 0 = hstate_init"
      "h_assignments out = hs_assignments (sts ! length sorted_sessions)"
      "distinct (map r_id (rooms swapped_rooms_input))
         \<longrightarrow> map snd (dict_by r_id (rooms swapped_rooms_input)) = rooms swapped_rooms_input"
      "\<forall>k < length sorted_sessions.
              place_session
                (mk_hctx swapped_rooms_input (expand_course_sessions (courses swapped_rooms_input)))
                (sts ! k) (sorted_sessions ! k) = Inr (sts ! Suc k)"
    by blast
  from c(5) d have v: "map snd (dict_by r_id (rooms swapped_rooms_input))
                         = rooms swapped_rooms_input" by simp
  from c(1-4,6) have t: "\<exists>sorted_sessions sts.
          sort_sessions
            (build_feasible_candidates swapped_rooms_input
               (expand_course_sessions (courses swapped_rooms_input)))
            (expand_course_sessions (courses swapped_rooms_input)) = Inr sorted_sessions
        \<and> length sts = Suc (length sorted_sessions) \<and> sts ! 0 = hstate_init
        \<and> h_assignments out = hs_assignments (sts ! length sorted_sessions)
        \<and> (\<forall>k < length sorted_sessions.
              place_session
                (mk_hctx swapped_rooms_input (expand_course_sessions (courses swapped_rooms_input)))
                (sts ! k) (sorted_sessions ! k) = Inr (sts ! Suc k))"
    by blast
  from r a d v e t show ?thesis by blast
qed

section \<open>Strategy selection\<close>

lemma build_result_fields:
  assumes "build_result status solver runtime assignments notes data = Inr (result, validation)"
  shows "sr_status result = status \<and> sr_solver result = solver
       \<and> sr_runtime_seconds result = py_round 4 runtime
       \<and> sr_assignments result = sort_key a_session_id assignments
       \<and> sr_notes result = notes
       \<and> validation = validate_schedule data assignments
       \<and> sessions_scheduled (sr_metrics result) = length assignments
       \<and> sessions_required (sr_metrics result)
           = length (expand_course_sessions (courses data))"
  using assms
  by (auto simp: build_result_def build_metrics_def Let_def split: sum.splits)

lemma tiny_run:
  "map_sum id (\<lambda>(r, v). (sr_status r, sr_solver r, sr_assignments r, sr_runtime_seconds r))
         (solve_schedule infeasible_engine tiny_clock no_instructor_input Auto)
     = Inr (''fallback_partial'', Solver_heuristic, [], Finite 0)"
  by code_simp

lemma tiny_cp:
  "map_sum id (\<lambda>(st, rt, as, notes). (st, rt))
       (solve_with_cp_sat infeasible_engine 0 (1 / 100000) no_instructor_input)
     = Inr (''model_invalid'', Finite (5902958103587057 / 590295810358705651712))"
  by code_simp

lemma tiny_heuristic:
  "map_sum id h_runtime_seconds (solve_with_heuristic 0 (2 / 100000) no_instructor_input)
     = Inr (Finite (5902958103587057 / 295147905179352825856))"
  by code_simp

lemma tiny_sum:
  "fadd (Finite (5902958103587057 / 590295810358705651712))
        (Finite (5902958103587057 / 295147905179352825856))
     = Finite (4427218577690293 / 147573952589676412928)"
  by code_simp

text \<open>
  C2 (as stated): in auto mode with fallback the result carries a runtime equal to the sum
  of the runtimes of the exact attempt and of the heuristic.  Every result is built by
  \<^verbatim>\<open>_build_result\<close>, which rounds the runtime to four decimals: with an exact attempt of
  \<open>0.00001\<close> seconds and a heuristic run of \<open>0.00002\<close> seconds the sum is about
  \<open>0.00003\<close>, and the result reports \<open>0.0\<close>.
\<close>

theorem fallback_runtime_is_rounded:
  "map_sum id (\<lambda>(r, v). (sr_status r, sr_solver r, sr_assignments r, sr_runtime_seconds r))
         (solve_schedule infeasible_engine tiny_clock no_instructor_input Auto)
     = Inr (''fallback_partial'', Solver_heuristic, [], Finite 0)
   \<and> map_sum id (\<lambda>(st, rt, as, notes). (st, rt))
       (solve_with_cp_sat infeasible_engine 0 (1 / 100000) no_instructor_input)
     = Inr (''model_invalid'', Finite (5902958103587057 / 590295810358705651712))
   \<and> map_sum id h_runtime_seconds (solve_with_heuristic 0 (2 / 100000) no_instructor_input)
     = Inr (Finite (5902958103587057 / 295147905179352825856))
   \<and> fadd (Finite (5902958103587057 / 590295810358705651712))
        (Finite (5902958103587057 / 295147905179352825856))
     = Finite (4427218577690293 / 147573952589676412928)
   \<and> enable_fallback (options no_instructor_input)"
  using tiny_run tiny_cp tiny_heuristic tiny_sum
  by (simp add: no_instructor_input_def demo_input_def default_options_def)

text \<open>
  C2 (amended): in auto mode \<open>solve_schedule\<close> runs the exact CP-SAT path first; if its
  status is optimal or feasible that result is final; otherwise, if \<open>enable_fallback\<close> is
  true, it runs the heuristic solver and returns the heuristic's status and its assignments
  (sorted by session id), with the runtime being the sum of the exact attempt's runtime and
  the heuristic's runtime rounded to four decimals, and with notes chaining the exact
  attempt's status and notes before the heuristic's; if \<open>enable_fallback\<close> is false, the
  exact path's status, assignments and notes are returned.  Every returned result is
  built by \<open>build_result\<close>, which rounds the runtime to four decimals and sorts the
  assignments by session id.
\<close>

theorem auto_mode_strategy:
  assumes "solve_schedule engine clock data Auto = Inr (result, validation)"
  shows "\<exists>cp_status cp_runtime cp_assignments cp_notes.
      solve_with_cp_sat engine (cp_start clock) (cp_end clock) data
        = Inr (cp_status, cp_runtime, cp_assignments, cp_notes)
    \<and> (if cp_status = ''optimal'' \<or> cp_status = ''feasible''
           \<or> \<not> enable_fallback (options data)
        then build_result cp_status Solver_cp_sat cp_runtime cp_assignments cp_notes data
               = Inr (result, validation)
           \<and> sr_status result = cp_status \<and> sr_solver result = Solver_cp_sat
           \<and> sr_runtime_seconds result = py_round 4 cp_runtime
           \<and> sr_assignments result = sort_key a_session_id cp_assignments
           \<and> sr_notes result = cp_notes
           \<and> validation = validate_schedule data cp_assignments
        else (\<exists>h. solve_with_heuristic (heuristic_start clock) (heuristic_end clock) data
                     = Inr h
                \<and> build_result (h_status h) Solver_heuristic
                     (fadd cp_runtime (h_runtime_seconds h)) (h_assignments h)
                     ([''CP-SAT status: '' @ cp_status @ ''. Triggering fallback heuristic.'']
                        @ cp_notes @ h_notes h) data
                   = Inr (result, validation)
                \<and> sr_status result = h_status h \<and> sr_solver result = Solver_heuristic
                \<and> sr_runtime_seconds result
                    = py_round 4 (fadd cp_runtime (h_runtime_seconds h))
                \<and> sr_assignments result = sort_key a_session_id (h_assignments h)
                \<and> sr_notes result
                    = [''CP-SAT status: '' @ cp_status @ ''. Triggering fallback heuristic.'']
                      @ cp_notes @ h_notes h
                \<and> validation = validate_schedule data (h_assignments h)))"
proof -
  from assms obtain cp_status cp_runtime cp_assignments cp_notes
    where cp: "solve_with_cp_sat engine (cp_start clock) (cp_end clock) data
                 = Inr (cp_status, cp_runtime, cp_assignments, cp_notes)"
    by (auto simp: solve_schedule_def split: sum.splits)
  show ?thesis
  proof (cases "cp_status = ''optimal'' \<or> cp_status = ''feasible''
                  \<or> \<not> enable_fallback (options data)")
    case True
    with assms cp
    have b: "build_result cp_status Solver_cp_sat cp_runtime cp_assignments cp_notes data
               = Inr (result, validation)"
      by (auto simp: solve_schedule_def split: if_splits)
    from build_result_fields [OF b] b cp True show ?thesis
      by (intro exI [of _ cp_status] exI [of _ cp_runtime] exI [of _ cp_assignments]
          exI [of _ cp_notes]) simp
  next
    case False
    with assms cp obtain h
      where h: "solve_with_heuristic (heuristic_start clock) (heuristic_end clock) data = Inr h"
        and b: "build_result (h_status h) Solver_heuristic
                     (fadd cp_runtime (h_runtime_seconds h)) (h_assignments h)
                     ([''CP-SAT status: '' @ cp_status @ ''. Triggering fallback heuristic.'']
                        @ cp_notes @ h_notes h) data
                   = Inr (result, validation)"
      by (auto simp: solve_schedule_def split: sum.splits)
    from build_result_fields [OF b] b h cp False show ?thesis
      by (intro exI [of _ cp_status] exI [of _ cp_runtime] exI [of _ cp_assignments]
          exI [of _ cp_notes]) auto
  qed
qed

end
